theory Spec2Isabelle
  imports Main
begin

section \<open>Data model\<close>

text \<open>
  The program is a Lambda handler that drives an external key-management provider (AWS KMS,
  reached through boto3).  Key identifiers, regions and tag keys and values are Python strings.
  A tag is the pair of its \<open>TagKey\<close> and \<open>TagValue\<close>; the tag list of a response keeps the
  provider's order, because the code takes the first match.
\<close>

type_synonym arn = string
type_synonym region = string
type_synonym tag = "string \<times> string"

record key_alias =
  AliasName :: string
  TargetKeyId :: string

text \<open>
  A \<open>botocore.exceptions.ClientError\<close>: the code reads \<open>e.response['Error']['Code']\<close> and prints
  the exception in log lines (\<open>error_text\<close> is what \<open>str(e)\<close> gives).
\<close>

datatype client_error = ClientError (error_code: string) (error_text: string)

text \<open>
  The provider operations the code calls.  A KMS client is fixed by the region it was built
  for, so every KMS call carries that region first.
\<close>

datatype call =
    GetCallerIdentity
  | DescribeKey region arn
  | DisableKey region arn
  | EnableKey region arn
  | TagResource region arn "tag list"
  | UntagResource region arn "string list"
  | ListResourceTags region arn
  | ScheduleKeyDeletion region arn int
  | CancelKeyDeletion region arn
  | ListAliases region arn
  | GetKeyPolicy region arn string
  | ReplicateKey region arn region string
  | PutKeyPolicy region arn string string
  | CreateAlias region string arn

text \<open>
  The fields the code reads from a provider response: \<open>Account\<close> (STS),
  \<open>KeyMetadata.KeyState\<close>, \<open>Tags\<close>, \<open>Aliases\<close>, \<open>Policy\<close> and \<open>ReplicaKeyMetadata.Arn\<close>.
\<close>

record response =
  Account :: string
  KeyState :: string
  Tags :: "tag list"
  Aliases :: "key_alias list"
  Policy :: string
  ReplicaArn :: string

text \<open>
  The provider is external: it is a parameter of the model.  It answers a call in a world
  \<open>'w\<close> with a response or a \<open>ClientError\<close> and the next world; \<open>today\<close> is the clock read by
  \<open>datetime.datetime.now().strftime('%Y-%m-%d')\<close>.
\<close>

record 'w provider =
  respond :: "'w \<Rightarrow> call \<Rightarrow> (client_error + response) \<times> 'w"
  today :: "'w \<Rightarrow> string"

datatype level = INFO | WARNING | ERROR

datatype event = Call call | Log level string

text \<open>The state threaded through the program: the provider's world and what happened so far.\<close>

record 'w run =
  world :: 'w
  trace :: "event list"

definition start :: "'w \<Rightarrow> 'w run" where
  "start w = \<lparr>world = w, trace = []\<rparr>"

definition invoke :: "'w provider \<Rightarrow> call \<Rightarrow> 'w run \<Rightarrow> (client_error + response) \<times> 'w run" where
  "invoke P c s =
     (case respond P (world s) c of
        (r, w') \<Rightarrow> (r, \<lparr>world = w', trace = trace s @ [Call c]\<rparr>))"

definition logger :: "level \<Rightarrow> string \<Rightarrow> 'w run \<Rightarrow> 'w run" where
  "logger lv msg s = s\<lparr>trace := trace s @ [Log lv msg]\<rparr>"

text \<open>Sequencing inside a \<open>try\<close> block: a raised \<open>ClientError\<close> skips the rest of the block.\<close>

definition and_then ::
  "(client_error + 'a) \<times> 'w run \<Rightarrow> ('a \<Rightarrow> 'w run \<Rightarrow> (client_error + 'b) \<times> 'w run)
     \<Rightarrow> (client_error + 'b) \<times> 'w run" where
  "and_then m f = (case m of (Inl e, s) \<Rightarrow> (Inl e, s) | (Inr x, s) \<Rightarrow> f x s)"

definition done_ok :: "'w run \<Rightarrow> (client_error + unit) \<times> 'w run" where
  "done_ok s = (Inr (), s)"

text \<open>\<open>try: ... except ClientError as e: ...\<close>: the handler runs on the state the block left.\<close>

definition except_client_error ::
  "(client_error + unit) \<times> 'w run \<Rightarrow> (client_error \<Rightarrow> 'w run \<Rightarrow> 'w run) \<Rightarrow> 'w run" where
  "except_client_error m handler = (case m of (Inl e, s) \<Rightarrow> handler e s | (Inr _, s) \<Rightarrow> s)"

section \<open>String helpers\<close>

text \<open>The em dash of the log lines, as its UTF-8 bytes.\<close>

definition em_dash :: string where
  "em_dash = [char_of (226::nat), char_of (128::nat), char_of (148::nat)]"

text \<open>\<open>str(n)\<close> of a Python integer, for the f-strings that print \<open>deletion_days\<close>.\<close>

fun str_nat :: "nat \<Rightarrow> string" where
  "str_nat n =
     (if n < 10 then [char_of (48 + n)]
      else str_nat (n div 10) @ [char_of (48 + n mod 10)])"

declare str_nat.simps [simp del]

definition str_int :: "int \<Rightarrow> string" where
  "str_int i = (if i < 0 then CHR ''-'' # str_nat (nat (- i)) else str_nat (nat i))"

text \<open>\<open>s.split(c)\<close> for a one-character separator: never an empty list.\<close>

fun split_str :: "char \<Rightarrow> string \<Rightarrow> string list" where
  "split_str c [] = [[]]"
| "split_str c (x # xs) =
     (if x = c then [] # split_str c xs
      else (case split_str c xs of
              [] \<Rightarrow> [[x]]
            | y # ys \<Rightarrow> (x # y) # ys))"

definition starts_with :: "string \<Rightarrow> string \<Rightarrow> bool" where
  "starts_with s p = (take (length p) s = p)"

text \<open>
  \<open>s.replace(old, new)\<close>: every non-overlapping occurrence of \<open>old\<close>, left to right.  With an
  empty \<open>old\<close> Python puts \<open>new\<close> before every character and at the end.
\<close>

function replace :: "string \<Rightarrow> string \<Rightarrow> string \<Rightarrow> string" where
  "replace [] old new = (if old = [] then new else [])"
| "replace (c # cs) old new =
     (if old = [] then new @ c # replace cs old new
      else if starts_with (c # cs) old then new @ replace (drop (length old) (c # cs)) old new
      else c # replace cs old new)"
  by pat_completeness auto
termination
  by (relation "measure (\<lambda>(s, old, new). length s)") (auto simp: starts_with_def)

section \<open>The key operations\<close>

text \<open>
  \<open>key_status\<close>: the state \<open>describe_key\<close> reports; a \<open>NotFoundException\<close> becomes the state
  \<open>NotFound\<close>, every other \<open>ClientError\<close> is raised again.
\<close>

definition key_status ::
  "'w provider \<Rightarrow> region \<Rightarrow> arn \<Rightarrow> 'w run \<Rightarrow> (client_error + string) \<times> 'w run" where
  "key_status P kms arn s =
     (case invoke P (DescribeKey kms arn) s of
        (Inr resp, s1) \<Rightarrow> (Inr (KeyState resp), s1)
      | (Inl e, s1) \<Rightarrow>
          if error_code e = ''NotFoundException'' then (Inr ''NotFound'', s1)
          else (Inl e, s1))"

text \<open>
  One turn of the loop of \<open>disable_keys\<close>.  The dry-run branch calls \<open>key_status\<close> outside any
  \<open>try\<close>, so an error it raises leaves the loop (\<open>Inl\<close>); the other branch catches its own.
\<close>

definition disable_key_arn ::
  "'w provider \<Rightarrow> region \<Rightarrow> bool \<Rightarrow> arn \<Rightarrow> 'w run \<Rightarrow> (client_error + unit) \<times> 'w run" where
  "disable_key_arn P kms dry_run arn s =
     (if dry_run then
        and_then (key_status P kms arn s) (\<lambda>status s1.
          if status \<noteq> ''NotFound''
          then done_ok (logger INFO (''Key '' @ arn @ '' would be disabled. (Dry Run)'') s1)
          else done_ok (logger INFO (''Key '' @ arn @ '' not found. (Dry Run)'') s1))
      else
        done_ok (except_client_error
          (and_then (invoke P (DisableKey kms arn) s) (\<lambda>_ s1.
           and_then (invoke P (TagResource kms arn [(''DisabledOn'', today P (world s1))]) s1)
             (\<lambda>_ s2.
             done_ok (logger INFO (''Key '' @ arn @ '' disabled'') s2))))
          (\<lambda>e. logger ERROR (''Failed to disable key '' @ arn @ '': '' @ error_text e))))"

fun disable_keys ::
  "'w provider \<Rightarrow> region \<Rightarrow> arn list \<Rightarrow> bool \<Rightarrow> 'w run \<Rightarrow> (client_error + unit) \<times> 'w run" where
  "disable_keys P kms [] dry_run s = done_ok s"
| "disable_keys P kms (arn # key_arns) dry_run s =
     and_then (disable_key_arn P kms dry_run arn s) (\<lambda>_ s'. disable_keys P kms key_arns dry_run s')"

definition enable_key_arn :: "'w provider \<Rightarrow> region \<Rightarrow> arn \<Rightarrow> 'w run \<Rightarrow> 'w run" where
  "enable_key_arn P kms arn s =
     except_client_error
       (and_then (key_status P kms arn s) (\<lambda>status s1.
          if status = ''NotFound''
          then done_ok (logger INFO (''Key '' @ arn @ '' not found'') s1)
          else
            and_then (invoke P (EnableKey kms arn) s1) (\<lambda>_ s2.
            and_then (invoke P (ListResourceTags kms arn) s2) (\<lambda>tags s3.
            and_then (if list_ex (\<lambda>tag. fst tag = ''DisabledOn'') (Tags tags)
                      then invoke P (UntagResource kms arn [''DisabledOn'']) s3
                      else (Inr tags, s3)) (\<lambda>_ s4.
              done_ok (logger INFO (''Key '' @ arn @ '' enabled'') s4))))))
       (\<lambda>e. logger ERROR (''Failed to enable key '' @ arn @ '': '' @ error_text e))"

definition enable_keys :: "'w provider \<Rightarrow> region \<Rightarrow> arn list \<Rightarrow> 'w run \<Rightarrow> 'w run" where
  "enable_keys P kms key_arns s = fold (enable_key_arn P kms) key_arns s"

definition excluded_services :: "string list" where
  "excluded_services = [''dynamodb'', ''efs'', ''elasticache'', ''rds'', ''s3'']"

definition schedule_key_deletion_arn ::
  "'w provider \<Rightarrow> region \<Rightarrow> int \<Rightarrow> bool \<Rightarrow> arn \<Rightarrow> 'w run \<Rightarrow> 'w run" where
  "schedule_key_deletion_arn P kms deletion_days dry_run arn s =
     except_client_error
       (and_then (key_status P kms arn s) (\<lambda>status s1.
          if status = ''PendingDeletion''
          then done_ok (logger INFO (''Key '' @ arn @ '' already scheduled for deletion.'') s1)
          else
            and_then (invoke P (ListResourceTags kms arn) s1) (\<lambda>tags s2.
              let service_tag = find (\<lambda>tag. fst tag = ''service_name'') (Tags tags) in
              if service_tag \<noteq> None \<and> snd (the service_tag) \<in> set excluded_services
              then done_ok (logger WARNING (''Key '' @ arn @ '' is in use by ''
                     @ snd (the service_tag) @ '' '' @ em_dash @ '' skipping deletion.'') s2)
              else
                let disabled_tag = find (\<lambda>tag. fst tag = ''DisabledOn'') (Tags tags) in
                if disabled_tag \<noteq> None then
                  (if dry_run
                   then done_ok (logger INFO (''Key '' @ arn
                          @ '' would be scheduled for deletion in '' @ str_int deletion_days
                          @ '' days. (Dry Run)'') s2)
                   else
                     and_then (invoke P (ScheduleKeyDeletion kms arn deletion_days) s2) (\<lambda>_ s3.
                       done_ok (logger INFO (''Key '' @ arn @ '' scheduled for deletion in ''
                         @ str_int deletion_days @ '' days.'') s3)))
                else done_ok (logger INFO (''Key '' @ arn @ '' is not disabled '' @ em_dash
                       @ '' skipping deletion.'') s2))))
       (\<lambda>e. if error_code e = ''NotFoundException''
            then logger INFO (''Key '' @ arn @ '' not found.'')
            else logger ERROR (''Failed to schedule deletion for key '' @ arn @ '': ''
                   @ error_text e))"

definition schedule_key_deletion ::
  "'w provider \<Rightarrow> region \<Rightarrow> arn list \<Rightarrow> int \<Rightarrow> bool \<Rightarrow> 'w run \<Rightarrow> 'w run" where
  "schedule_key_deletion P kms key_arns deletion_days dry_run s =
     fold (schedule_key_deletion_arn P kms deletion_days dry_run) key_arns s"

definition cancel_key_deletion_arn :: "'w provider \<Rightarrow> region \<Rightarrow> arn \<Rightarrow> 'w run \<Rightarrow> 'w run" where
  "cancel_key_deletion_arn P kms arn s =
     except_client_error
       (and_then (key_status P kms arn s) (\<lambda>status s1.
          if status \<in> set [''PendingDeletion'', ''PendingReplicaDeletion'']
          then and_then (invoke P (CancelKeyDeletion kms arn) s1) (\<lambda>_ s2.
                 done_ok (logger INFO (''Cancelled deletion for key '' @ arn) s2))
          else done_ok (logger INFO (''Key '' @ arn @ '' is not scheduled for deletion ''
                 @ em_dash @ '' nothing to cancel.'') s1)))
       (\<lambda>e. logger ERROR (''Error cancelling deletion for key '' @ arn @ '': '' @ error_text e))"

definition cancel_key_deletion :: "'w provider \<Rightarrow> region \<Rightarrow> arn list \<Rightarrow> 'w run \<Rightarrow> 'w run" where
  "cancel_key_deletion P kms key_arns s = fold (cancel_key_deletion_arn P kms) key_arns s"

definition tag_srk_migration_arn :: "'w provider \<Rightarrow> region \<Rightarrow> arn \<Rightarrow> 'w run \<Rightarrow> 'w run" where
  "tag_srk_migration_arn P kms arn s =
     except_client_error
       (and_then (invoke P (TagResource kms arn [(''MigrationStatus'', ''completed'')]) s)
          (\<lambda>_ s1.
          done_ok (logger INFO (''Tagged key '' @ arn @ '' with MigrationStatus=completed'') s1)))
       (\<lambda>e. logger ERROR (''Failed to tag key '' @ arn @ '': '' @ error_text e))"

definition tag_srk_migration :: "'w provider \<Rightarrow> region \<Rightarrow> arn list \<Rightarrow> 'w run \<Rightarrow> 'w run" where
  "tag_srk_migration P kms key_arns s = fold (tag_srk_migration_arn P kms) key_arns s"

definition remove_tag_srk_migration_arn ::
  "'w provider \<Rightarrow> region \<Rightarrow> arn \<Rightarrow> 'w run \<Rightarrow> 'w run" where
  "remove_tag_srk_migration_arn P kms arn s =
     except_client_error
       (and_then (invoke P (UntagResource kms arn [''MigrationStatus'']) s) (\<lambda>_ s1.
          done_ok (logger INFO (''Removed MigrationStatus tag from key '' @ arn) s1)))
       (\<lambda>e. logger ERROR (''Failed to remove tag from key '' @ arn @ '': '' @ error_text e))"

definition remove_tag_srk_migration ::
  "'w provider \<Rightarrow> region \<Rightarrow> arn list \<Rightarrow> 'w run \<Rightarrow> 'w run" where
  "remove_tag_srk_migration P kms key_arns s = fold (remove_tag_srk_migration_arn P kms) key_arns s"

section \<open>Replication\<close>

text \<open>
  \<open>get_primary_alias\<close>: the name of the first alias whose \<open>TargetKeyId\<close> is the last
  \<open>/\<close>-separated segment of the key ARN; \<open>None\<close> when there is none or the lookup raised.
\<close>

definition get_primary_alias ::
  "'w provider \<Rightarrow> region \<Rightarrow> arn \<Rightarrow> 'w run \<Rightarrow> string option \<times> 'w run" where
  "get_primary_alias P kms key_arn s =
     (case invoke P (ListAliases kms key_arn) s of
        (Inr aliases, s1) \<Rightarrow>
          (map_option AliasName
             (find (\<lambda>alias. TargetKeyId alias = last (split_str CHR ''/'' key_arn))
                (Aliases aliases)), s1)
      | (Inl e, s1) \<Rightarrow>
          (None, logger ERROR (''Error getting alias for key '' @ key_arn @ '': ''
                   @ error_text e) s1))"

definition secondary_alias_of :: "string \<Rightarrow> region \<Rightarrow> string" where
  "secondary_alias_of primary_alias secondary_region =
     replace primary_alias ''_ca-central-1'' (''_'' @ secondary_region)"

definition replicate_key ::
  "'w provider \<Rightarrow> arn \<Rightarrow> string \<Rightarrow> region \<Rightarrow> bool \<Rightarrow> 'w run \<Rightarrow> 'w run" where
  "replicate_key P primary_key_arn primary_alias secondary_region dry_run s =
     (let secondary_alias = secondary_alias_of primary_alias secondary_region;
          kms_primary = ''ca-central-1'';
          kms_secondary = secondary_region
      in except_client_error
           (and_then (invoke P (GetKeyPolicy kms_primary primary_key_arn ''default'') s)
              (\<lambda>policy s1.
            and_then (invoke P (ListResourceTags kms_primary primary_key_arn) s1) (\<lambda>tags s2.
              if dry_run
              then done_ok (logger INFO (''Would replicate key '' @ primary_key_arn @ '' to ''
                     @ secondary_region @ '' with alias '' @ secondary_alias
                     @ ''. (Dry Run)'') s2)
              else
                and_then (invoke P (ReplicateKey kms_primary primary_key_arn secondary_region
                            ''Replica key'') s2) (\<lambda>replica s3.
                and_then (invoke P (PutKeyPolicy kms_secondary (ReplicaArn replica) ''default''
                            (Policy policy)) s3) (\<lambda>_ s4.
                and_then (invoke P (CreateAlias kms_secondary secondary_alias
                            (ReplicaArn replica)) s4) (\<lambda>_ s5.
                and_then (if Tags tags \<noteq> []
                          then invoke P (TagResource kms_secondary (ReplicaArn replica)
                                 (Tags tags)) s5
                          else (Inr tags, s5)) (\<lambda>_ s6.
                  done_ok (logger INFO (''Replica key created with alias ''
                    @ secondary_alias) s6))))))))
           (\<lambda>e. logger ERROR (''Error replicating key '' @ primary_key_arn @ '': ''
                  @ error_text e)))"

text \<open>One turn of the loop of the \<open>replicate_ireland\<close> branch of the handler.\<close>

definition replicate_ireland_arn ::
  "'w provider \<Rightarrow> region \<Rightarrow> region \<Rightarrow> bool \<Rightarrow> arn \<Rightarrow> 'w run \<Rightarrow> 'w run" where
  "replicate_ireland_arn P kms secondary_region dry_run arn s =
     (case get_primary_alias P kms arn s of
        (alias, s1) \<Rightarrow>
          if alias \<noteq> None \<and> the alias \<noteq> []
          then replicate_key P arn (the alias) secondary_region dry_run s1
          else logger WARNING (''No alias found for '' @ arn @ '', skipping replication.'') s1)"

section \<open>The handler\<close>

text \<open>The event is a dictionary: every field may be absent, and the handler has a default.\<close>

record lambda_event =
  ev_aws_region :: "string option"
  ev_action :: "string option"
  ev_key_arns :: "arn list option"
  ev_dry_run :: "bool option"
  ev_deletion_schedule_days :: "int option"

record http_response =
  statusCode :: int
  body :: string

definition blocked_accounts :: "string list" where
  "blocked_accounts = [''111122223333'']"

definition get_or :: "'a option \<Rightarrow> 'a \<Rightarrow> 'a" where
  "get_or v d = (case v of None \<Rightarrow> d | Some x \<Rightarrow> x)"

text \<open>\<open>{action}\<close> in an f-string: a missing action prints as \<open>None\<close>.\<close>

definition str_action :: "string option \<Rightarrow> string" where
  "str_action a = (case a of None \<Rightarrow> ''None'' | Some x \<Rightarrow> x)"

definition completed :: "string option \<Rightarrow> 'w run \<Rightarrow> (client_error + http_response) \<times> 'w run" where
  "completed action s =
     (Inr \<lparr>statusCode = 200, body = ''Action '' @ str_action action @ '' completed''\<rparr>, s)"

text \<open>
  \<open>lambda_handler\<close>: \<open>Inr\<close> is the returned response, \<open>Inl\<close> a \<open>ClientError\<close> that no
  \<open>except\<close> caught, which ends the invocation without a response.
\<close>

definition lambda_handler ::
  "'w provider \<Rightarrow> lambda_event \<Rightarrow> 'w run \<Rightarrow> (client_error + http_response) \<times> 'w run" where
  "lambda_handler P event s =
     (let aws_region = get_or (ev_aws_region event) ''us-east-1'';
          action = ev_action event;
          key_arns = get_or (ev_key_arns event) [];
          dry_run = get_or (ev_dry_run event) False;
          deletion_days = get_or (ev_deletion_schedule_days event) 30
      in and_then (invoke P GetCallerIdentity s) (\<lambda>identity s1.
           if Account identity \<in> set blocked_accounts
           then (Inr \<lparr>statusCode = 403, body = ''Execution not allowed in this account''\<rparr>,
                 logger WARNING (''Execution blocked in account '' @ Account identity) s1)
           else if key_arns = []
           then (Inr \<lparr>statusCode = 400, body = ''No key ARNs specified''\<rparr>,
                 logger ERROR ''No key ARNs provided.'' s1)
           else if action = Some ''disable''
           then and_then (disable_keys P aws_region key_arns dry_run s1) (\<lambda>_. completed action)
           else if action = Some ''enable''
           then completed action (enable_keys P aws_region key_arns s1)
           else if action = Some ''schedule_deletion''
           then completed action
                  (schedule_key_deletion P aws_region key_arns deletion_days dry_run s1)
           else if action = Some ''cancel_deletion''
           then completed action (cancel_key_deletion P aws_region key_arns s1)
           else if action = Some ''tag_srk_migration''
           then completed action (tag_srk_migration P aws_region key_arns s1)
           else if action = Some ''remove_tag_srk_migration''
           then completed action (remove_tag_srk_migration P aws_region key_arns s1)
           else if action = Some ''replicate_ireland''
           then completed action
                  (fold (replicate_ireland_arn P aws_region ''eu-west-1'' dry_run) key_arns s1)
           else (Inr \<lparr>statusCode = 400, body = ''Unsupported action: '' @ str_action action\<rparr>,
                 logger ERROR (''Unsupported action: '' @ str_action action) s1)))"

section \<open>Reading a trace\<close>

definition calls_of :: "event list \<Rightarrow> call list" where
  "calls_of evs = concat (map (\<lambda>e. case e of Call c \<Rightarrow> [c] | Log _ _ \<Rightarrow> []) evs)"

definition logs_of :: "event list \<Rightarrow> (level \<times> string) list" where
  "logs_of evs = concat (map (\<lambda>e. case e of Call _ \<Rightarrow> [] | Log lv m \<Rightarrow> [(lv, m)]) evs)"

text \<open>The calls that change the provider's keys, tags, policies or aliases.\<close>

fun mutating :: "call \<Rightarrow> bool" where
  "mutating GetCallerIdentity = False"
| "mutating (DescribeKey _ _) = False"
| "mutating (ListResourceTags _ _) = False"
| "mutating (ListAliases _ _) = False"
| "mutating (GetKeyPolicy _ _ _) = False"
| "mutating (DisableKey _ _) = True"
| "mutating (EnableKey _ _) = True"
| "mutating (TagResource _ _ _) = True"
| "mutating (UntagResource _ _ _) = True"
| "mutating (ScheduleKeyDeletion _ _ _) = True"
| "mutating (CancelKeyDeletion _ _) = True"
| "mutating (ReplicateKey _ _ _ _) = True"
| "mutating (PutKeyPolicy _ _ _ _) = True"
| "mutating (CreateAlias _ _ _) = True"

text \<open>The calls that only read: \<open>describe_key\<close>, \<open>list_resource_tags\<close>, \<open>list_aliases\<close>,
  \<open>get_key_policy\<close>.\<close>

fun read_only :: "call \<Rightarrow> bool" where
  "read_only (DescribeKey _ _) = True"
| "read_only (ListResourceTags _ _) = True"
| "read_only (ListAliases _ _) = True"
| "read_only (GetKeyPolicy _ _ _) = True"
| "read_only _ = False"

fun tag_mutation :: "call \<Rightarrow> bool" where
  "tag_mutation (TagResource _ _ _) = True"
| "tag_mutation (UntagResource _ _ _) = True"
| "tag_mutation _ = False"

text \<open>
  Reading a tag list the way \<open>schedule_key_deletion\<close> does: the first \<open>service_name\<close> tag
  decides whether the key belongs to an excluded service.
\<close>

definition service_excluded :: "tag list \<Rightarrow> bool" where
  "service_excluded tags =
     (case find (\<lambda>tag. fst tag = ''service_name'') tags of
        None \<Rightarrow> False
      | Some tag \<Rightarrow> snd tag \<in> set excluded_services)"

definition has_tag :: "string \<Rightarrow> tag list \<Rightarrow> bool" where
  "has_tag k tags = list_ex (\<lambda>tag. fst tag = k) tags"

text \<open>A provider whose read-only calls leave its world as it was.\<close>

definition keeps_world :: "'w provider \<Rightarrow> bool" where
  "keeps_world P = (\<forall>w c. read_only c \<longrightarrow> snd (respond P w c) = w)"

text \<open>
  \<open>reaches Q P s s'\<close>: the run \<open>s'\<close> continues \<open>s\<close> with calls that all satisfy \<open>Q\<close>; when these
  are read-only calls of a provider that keeps its world, the world is the one of \<open>s\<close>.
\<close>

definition reaches :: "(call \<Rightarrow> bool) \<Rightarrow> 'w provider \<Rightarrow> 'w run \<Rightarrow> 'w run \<Rightarrow> bool" where
  "reaches Q P s s' =
     ((\<exists>evs. trace s' = trace s @ evs \<and> list_all Q (calls_of evs)) \<and>
      (keeps_world P \<and> (\<forall>c. Q c \<longrightarrow> read_only c) \<longrightarrow> world s' = world s))"

text \<open>
  What the code relies on when it reads and removes the \<open>DisabledOn\<close> tag of one key:
  \<open>tagged w\<close> says that the key carries the tag in world \<open>w\<close>; \<open>list_resource_tags\<close> reports
  it, a successful \<open>untag_resource\<close> removes it, and \<open>describe_key\<close>, \<open>enable_key\<close> and
  \<open>list_resource_tags\<close> do not touch it.
\<close>

definition tag_ledger :: "'w provider \<Rightarrow> region \<Rightarrow> arn \<Rightarrow> ('w \<Rightarrow> bool) \<Rightarrow> bool" where
  "tag_ledger P kms arn tagged =
     (\<forall>w. tagged (snd (respond P w (DescribeKey kms arn))) = tagged w
        \<and> tagged (snd (respond P w (EnableKey kms arn))) = tagged w
        \<and> tagged (snd (respond P w (ListResourceTags kms arn))) = tagged w
        \<and> (\<forall>resp. fst (respond P w (ListResourceTags kms arn)) = Inr resp \<longrightarrow>
              has_tag ''DisabledOn'' (Tags resp) = tagged w)
        \<and> (\<forall>resp. fst (respond P w (UntagResource kms arn [''DisabledOn''])) = Inr resp \<longrightarrow>
              \<not> tagged (snd (respond P w (UntagResource kms arn [''DisabledOn''])))))"

text \<open>\<open>p in s\<close> for Python strings.\<close>

fun contains :: "string \<Rightarrow> string \<Rightarrow> bool" where
  "contains [] p = (p = [])"
| "contains (c # cs) p = (starts_with (c # cs) p \<or> contains cs p)"

text \<open>
  The calls of a \<open>replicate_ireland\<close> request, by region: the alias lookup runs on the client
  of the request's region \<open>req\<close>, the reads and \<open>replicate_key\<close> on \<open>ca-central-1\<close>, the writes
  to the replica on \<open>eu-west-1\<close>.
\<close>

fun replication_call :: "region \<Rightarrow> call \<Rightarrow> bool" where
  "replication_call req GetCallerIdentity = True"
| "replication_call req (ListAliases r _) = (r = req)"
| "replication_call req (GetKeyPolicy r _ _) = (r = ''ca-central-1'')"
| "replication_call req (ListResourceTags r _) = (r = ''ca-central-1'')"
| "replication_call req (ReplicateKey r _ r2 _) = (r = ''ca-central-1'' \<and> r2 = ''eu-west-1'')"
| "replication_call req (PutKeyPolicy r _ _ _) = (r = ''eu-west-1'')"
| "replication_call req (CreateAlias r _ _) = (r = ''eu-west-1'')"
| "replication_call req (TagResource r _ _) = (r = ''eu-west-1'')"
| "replication_call req _ = False"

text \<open>The calls of one \<open>replicate_key\<close>, with the key, the regions and the alias they carry.\<close>

fun replicate_key_call :: "arn \<Rightarrow> string \<Rightarrow> region \<Rightarrow> call \<Rightarrow> bool" where
  "replicate_key_call arn alias sec (GetKeyPolicy r a n) =
     (r = ''ca-central-1'' \<and> a = arn \<and> n = ''default'')"
| "replicate_key_call arn alias sec (ListResourceTags r a) = (r = ''ca-central-1'' \<and> a = arn)"
| "replicate_key_call arn alias sec (ReplicateKey r a r2 d) =
     (r = ''ca-central-1'' \<and> a = arn \<and> r2 = sec)"
| "replicate_key_call arn alias sec (PutKeyPolicy r _ _ _) = (r = sec)"
| "replicate_key_call arn alias sec (CreateAlias r n _) =
     (r = sec \<and> n = replace alias ''_ca-central-1'' (''_'' @ sec))"
| "replicate_key_call arn alias sec (TagResource r _ _) = (r = sec)"
| "replicate_key_call arn alias sec _ = False"

section \<open>Concrete providers\<close>

text \<open>
  Providers to run the program on.  A scripted provider has no state: it answers every call
  from a fixed table.
\<close>

definition plain :: response where
  "plain = \<lparr>Account = ''000000000000'', KeyState = ''Enabled'', Tags = [], Aliases = [],
            Policy = ''{}'', ReplicaArn = ''replica-1''\<rparr>"

definition scripted :: "(call \<Rightarrow> client_error + response) \<Rightarrow> unit provider" where
  "scripted answer = \<lparr>respond = (\<lambda>w c. (answer c, w)), today = (\<lambda>w. ''2024-05-01'')\<rparr>"

text \<open>No key exists: every KMS call raises \<open>NotFoundException\<close>.\<close>

definition no_such_key :: "call \<Rightarrow> client_error + response" where
  "no_such_key c =
     (if c = GetCallerIdentity then Inr plain
      else Inl (ClientError ''NotFoundException'' ''key not found''))"

text \<open>The caller may not use KMS: every KMS call raises \<open>AccessDeniedException\<close>.\<close>

definition access_denied :: "call \<Rightarrow> client_error + response" where
  "access_denied c =
     (if c = GetCallerIdentity then Inr plain
      else Inl (ClientError ''AccessDeniedException'' ''not authorized''))"

text \<open>A key of the RDS service that is disabled, tagged and already pending deletion.\<close>

definition pending_rds_key :: "call \<Rightarrow> client_error + response" where
  "pending_rds_key c =
     (case c of
        DescribeKey _ _ \<Rightarrow> Inr (plain\<lparr>KeyState := ''PendingDeletion''\<rparr>)
      | ListResourceTags _ _ \<Rightarrow>
          Inr (plain\<lparr>Tags := [(''service_name'', ''rds''), (''DisabledOn'', ''2024-04-01'')]\<rparr>)
      | _ \<Rightarrow> Inr plain)"

text \<open>
  A disabled key \<open>k1\<close> with tags, the given service name and the alias
  \<open>alias_ca-central-1_srk\<close>.
\<close>

definition disabled_key :: "string \<Rightarrow> call \<Rightarrow> client_error + response" where
  "disabled_key service c =
     (case c of
        DescribeKey _ _ \<Rightarrow> Inr (plain\<lparr>KeyState := ''Disabled''\<rparr>)
      | ListResourceTags _ _ \<Rightarrow>
          Inr (plain\<lparr>Tags := [(''service_name'', service), (''DisabledOn'', ''2024-04-01'')]\<rparr>)
      | ListAliases _ _ \<Rightarrow>
          Inr (plain\<lparr>Aliases := [\<lparr>AliasName = ''alias_ca-central-1_srk'', TargetKeyId = ''k1''\<rparr>]\<rparr>)
      | _ \<Rightarrow> Inr plain)"

text \<open>
  A provider with state: one key, its state and its tags.  Every call names that key and
  succeeds.
\<close>

record one_key =
  its_state :: string
  its_tags :: "tag list"

definition one_key_respond :: "one_key \<Rightarrow> call \<Rightarrow> (client_error + response) \<times> one_key" where
  "one_key_respond w c =
     (case c of
        DescribeKey _ _ \<Rightarrow> (Inr (plain\<lparr>KeyState := its_state w\<rparr>), w)
      | ListResourceTags _ _ \<Rightarrow> (Inr (plain\<lparr>Tags := its_tags w\<rparr>), w)
      | DisableKey _ _ \<Rightarrow> (Inr plain, w\<lparr>its_state := ''Disabled''\<rparr>)
      | EnableKey _ _ \<Rightarrow> (Inr plain, w\<lparr>its_state := ''Enabled''\<rparr>)
      | ScheduleKeyDeletion _ _ _ \<Rightarrow> (Inr plain, w\<lparr>its_state := ''PendingDeletion''\<rparr>)
      | CancelKeyDeletion _ _ \<Rightarrow> (Inr plain, w\<lparr>its_state := ''Disabled''\<rparr>)
      | TagResource _ _ tags \<Rightarrow>
          (Inr plain,
           w\<lparr>its_tags := filter (\<lambda>t. fst t \<notin> set (map fst tags)) (its_tags w) @ tags\<rparr>)
      | UntagResource _ _ tag_keys \<Rightarrow>
          (Inr plain, w\<lparr>its_tags := filter (\<lambda>t. fst t \<notin> set tag_keys) (its_tags w)\<rparr>)
      | _ \<Rightarrow> (Inr plain, w))"

definition one_key_kms :: "one_key provider" where
  "one_key_kms = \<lparr>respond = one_key_respond, today = (\<lambda>w. ''2024-05-01'')\<rparr>"

definition tagged_key :: one_key where
  "tagged_key = \<lparr>its_state = ''Disabled'', its_tags = [(''DisabledOn'', ''2024-04-01'')]\<rparr>"

text \<open>A request that names an action, keys and the dry-run flag and leaves the rest out.\<close>

definition request :: "string \<Rightarrow> arn list \<Rightarrow> bool \<Rightarrow> lambda_event" where
  "request action key_arns dry_run =
     \<lparr>ev_aws_region = None, ev_action = Some action, ev_key_arns = Some key_arns,
      ev_dry_run = Some dry_run, ev_deletion_schedule_days = None\<rparr>"

definition pending_key :: one_key where
  "pending_key = \<lparr>its_state = ''PendingDeletion'', its_tags = [(''DisabledOn'', ''2024-04-01'')]\<rparr>"

text \<open>
  An inconsistent provider: \<open>describe_key\<close> raises \<open>NotFoundException\<close>, yet the tags of the
  key can be read and carry \<open>DisabledOn\<close>.
\<close>

definition ghost_key :: "call \<Rightarrow> client_error + response" where
  "ghost_key c =
     (case c of
        DescribeKey _ _ \<Rightarrow> Inl (ClientError ''NotFoundException'' ''key not found'')
      | ListResourceTags _ _ \<Rightarrow> Inr (plain\<lparr>Tags := [(''DisabledOn'', ''2024-04-01'')]\<rparr>)
      | _ \<Rightarrow> Inr plain)"

text \<open>
  A key \<open>k1\<close> that lives in \<open>ca-central-1\<close>: its alias is listed there and in no other
  region.
\<close>

definition ca_central_key :: "call \<Rightarrow> client_error + response" where
  "ca_central_key c =
     (case c of
        ListAliases r _ \<Rightarrow>
          (if r = ''ca-central-1''
           then Inr (plain\<lparr>Aliases :=
                  [\<lparr>AliasName = ''alias_ca-central-1_srk'', TargetKeyId = ''k1''\<rparr>]\<rparr>)
           else Inr plain)
      | _ \<Rightarrow> Inr plain)"

section \<open>The handler up to its dispatch\<close>

text \<open>
  A request passes the gates of the handler when the identity lookup answers with an account
  that is not blocked and the request names at least one key; the dispatch then starts from
  the run that the identity lookup left.
\<close>

definition admitted :: "'w provider \<Rightarrow> lambda_event \<Rightarrow> 'w run \<Rightarrow> bool" where
  "admitted P event h =
     (case respond P (world h) GetCallerIdentity of
        (Inr identity, w1) \<Rightarrow>
          Account identity \<notin> set blocked_accounts \<and> get_or (ev_key_arns event) [] \<noteq> []
      | (Inl e, w1) \<Rightarrow> False)"

definition after_identity :: "'w provider \<Rightarrow> 'w run \<Rightarrow> 'w run" where
  "after_identity P h =
     \<lparr>world = snd (respond P (world h) GetCallerIdentity),
      trace = trace h @ [Call GetCallerIdentity]\<rparr>"

section \<open>Reading runs\<close>

lemma calls_of_simps [simp]:
  "calls_of [] = []"
  "calls_of (Call c # evs) = c # calls_of evs"
  "calls_of (Log lv m # evs) = calls_of evs"
  "calls_of (xs @ ys) = calls_of xs @ calls_of ys"
  by (simp_all add: calls_of_def)

lemma logs_of_simps [simp]:
  "logs_of [] = []"
  "logs_of (Call c # evs) = logs_of evs"
  "logs_of (Log lv m # evs) = (lv, m) # logs_of evs"
  "logs_of (xs @ ys) = logs_of xs @ logs_of ys"
  by (simp_all add: logs_of_def)

lemmas run_defs =
  invoke_def and_then_def done_ok_def logger_def except_client_error_def start_def

lemmas script_defs =
  scripted_def plain_def no_such_key_def access_denied_def pending_rds_key_def disabled_key_def


lemma find_has_tag: "(find (\<lambda>tag. fst tag = k) tags \<noteq> None) = has_tag k tags"
  by (induction tags) (auto simp: has_tag_def)

lemma service_excluded_find:
  "(has_tag ''service_name'' tags
      \<and> snd (the (find (\<lambda>tag. fst tag = ''service_name'') tags)) \<in> set excluded_services)
   = service_excluded tags"
  unfolding find_has_tag[symmetric]
  by (cases "find (\<lambda>tag. fst tag = ''service_name'') tags") (auto simp: service_excluded_def)

lemma str_int_30: "str_int 30 = ''30''"
  by code_simp

section \<open>Runs whose calls all satisfy a predicate\<close>

lemma reaches_refl: "reaches Q P s s"
  by (simp add: reaches_def)

lemma reaches_logger: "reaches Q P s s1 \<Longrightarrow> reaches Q P s (logger lv m s1)"
  by (auto simp: reaches_def logger_def)

lemma reaches_invoke:
  assumes "reaches Q P s s1" and "Q c"
  shows "reaches Q P s (snd (invoke P c s1))"
proof -
  have "keeps_world P \<Longrightarrow> read_only c \<Longrightarrow> snd (respond P (world s1) c) = world s1"
    by (simp add: keeps_world_def)
  with assms show ?thesis
    by (auto simp: reaches_def invoke_def split: prod.splits)
qed

lemma reaches_key_status:
  "reaches Q P s s1 \<Longrightarrow> Q (DescribeKey kms arn) \<Longrightarrow>
   reaches Q P s (snd (key_status P kms arn s1))"
  using reaches_invoke[of Q P s s1 "DescribeKey kms arn"]
  by (auto simp: key_status_def split: prod.splits sum.splits)

lemma reaches_and_then:
  "reaches Q P s (snd m) \<Longrightarrow> (\<And>x s1. reaches Q P s s1 \<Longrightarrow> reaches Q P s (snd (f x s1)))
     \<Longrightarrow> reaches Q P s (snd (and_then m f))"
  by (cases m) (auto simp: and_then_def split: sum.splits)

lemma reaches_done_ok: "reaches Q P s s1 \<Longrightarrow> reaches Q P s (snd (done_ok s1))"
  by (simp add: done_ok_def)

lemma reaches_pair: "reaches Q P s s1 \<Longrightarrow> reaches Q P s (snd (x, s1))"
  by simp

lemma reaches_except:
  "reaches Q P s (snd m) \<Longrightarrow> (\<And>e s1. reaches Q P s s1 \<Longrightarrow> reaches Q P s (h e s1))
     \<Longrightarrow> reaches Q P s (except_client_error m h)"
  by (cases m) (auto simp: except_client_error_def split: sum.splits)

lemma reaches_if_snd:
  "(c \<Longrightarrow> reaches Q P s (snd a)) \<Longrightarrow> (\<not> c \<Longrightarrow> reaches Q P s (snd b))
     \<Longrightarrow> reaches Q P s (snd (if c then a else b))"
  by simp

lemma reaches_if:
  "(c \<Longrightarrow> reaches Q P s a) \<Longrightarrow> (\<not> c \<Longrightarrow> reaches Q P s b)
     \<Longrightarrow> reaches Q P s (if c then a else b)"
  by simp

lemma reaches_if_app:
  "(c \<Longrightarrow> reaches Q P s (a s1)) \<Longrightarrow> (\<not> c \<Longrightarrow> reaches Q P s (b s1))
     \<Longrightarrow> reaches Q P s ((if c then a else b) s1)"
  by simp

lemmas reaches_intros =
  reaches_logger reaches_invoke reaches_key_status reaches_and_then reaches_done_ok
  reaches_except reaches_if_snd reaches_if reaches_if_app reaches_pair

lemma reaches_fold:
  "(\<And>a s1. reaches Q P s s1 \<Longrightarrow> reaches Q P s (f a s1)) \<Longrightarrow> reaches Q P s s0
     \<Longrightarrow> reaches Q P s (fold f xs s0)"
  by (induction xs arbitrary: s0) auto

lemma reaches_get_primary_alias:
  "reaches Q P s s1 \<Longrightarrow> Q (ListAliases kms arn) \<Longrightarrow>
   reaches Q P s (snd (get_primary_alias P kms arn s1))"
  using reaches_invoke[of Q P s s1 "ListAliases kms arn"]
  by (auto simp: get_primary_alias_def intro: reaches_logger split: prod.splits sum.splits)

lemma reaches_start:
  "reaches Q P (start w) s \<Longrightarrow> list_all Q (calls_of (trace s))"
  by (auto simp: reaches_def start_def)

lemma reaches_start_world:
  "reaches read_only P (start w) s \<Longrightarrow> keeps_world P \<Longrightarrow> world s = w"
  by (auto simp: reaches_def start_def)

section \<open>Turns, loops and the dispatch of the handler\<close>

lemma key_status_run:
  "key_status P kms arn s = (r, s1) \<Longrightarrow>
     s1 = \<lparr>world = snd (respond P (world s) (DescribeKey kms arn)),
           trace = trace s @ [Call (DescribeKey kms arn)]\<rparr>"
  by (auto simp: key_status_def invoke_def split: prod.splits sum.splits if_splits)

lemma reaches_extends: "reaches Q P s s' \<Longrightarrow> \<exists>rest. trace s' = trace s @ rest"
  by (auto simp: reaches_def)

lemma fold_at_key: "fold f (before @ a # after) s0 = fold f after (f a (fold f before s0))"
  by simp

lemma any_enable_key_arn:
  "reaches (\<lambda>c. True) P s s1 \<Longrightarrow> reaches (\<lambda>c. True) P s (enable_key_arn P kms arn s1)"
  unfolding enable_key_arn_def
  by (intro reaches_intros; simp)

lemma any_schedule_key_deletion_arn:
  "reaches (\<lambda>c. True) P s s1 \<Longrightarrow>
   reaches (\<lambda>c. True) P s (schedule_key_deletion_arn P kms days dry_run arn s1)"
  unfolding schedule_key_deletion_arn_def Let_def
  by (intro reaches_intros; simp)

lemma any_cancel_key_deletion_arn:
  "reaches (\<lambda>c. True) P s s1 \<Longrightarrow>
   reaches (\<lambda>c. True) P s (cancel_key_deletion_arn P kms arn s1)"
  unfolding cancel_key_deletion_arn_def
  by (intro reaches_intros; simp)

lemma any_replicate_key:
  "reaches (\<lambda>c. True) P s s1 \<Longrightarrow>
   reaches (\<lambda>c. True) P s (replicate_key P arn alias sec dry_run s1)"
  unfolding replicate_key_def Let_def
  by (intro reaches_intros; simp)

lemma any_replicate_ireland_arn:
  assumes "reaches (\<lambda>c. True) P s s1"
  shows "reaches (\<lambda>c. True) P s (replicate_ireland_arn P kms sec dry_run arn s1)"
proof -
  have "reaches (\<lambda>c. True) P s (snd (get_primary_alias P kms arn s1))"
    using assms by (intro reaches_get_primary_alias) simp_all
  then show ?thesis
    unfolding replicate_ireland_arn_def
    by (auto split: prod.splits intro!: any_replicate_key reaches_logger)
qed

lemma loop_extends:
  assumes "\<And>a s s1. reaches (\<lambda>c. True) P s s1 \<Longrightarrow> reaches (\<lambda>c. True) P s (f a s1)"
  shows "\<exists>rest. trace (fold f xs s) = trace s @ rest"
  by (rule reaches_extends[where Q = "\<lambda>c. True" and P = P])
    (rule reaches_fold, erule assms, rule reaches_refl)

text \<open>The handler, once a request is admitted: one loop per action, then status 200.\<close>

lemma lambda_handler_dispatch:
  assumes "admitted P event h"
  shows "ev_action event = Some ''enable'' \<Longrightarrow>
           lambda_handler P event h
             = (Inr \<lparr>statusCode = 200, body = ''Action enable completed''\<rparr>,
                enable_keys P (get_or (ev_aws_region event) ''us-east-1'')
                  (get_or (ev_key_arns event) []) (after_identity P h))"
    and "ev_action event = Some ''schedule_deletion'' \<Longrightarrow>
           lambda_handler P event h
             = (Inr \<lparr>statusCode = 200, body = ''Action schedule_deletion completed''\<rparr>,
                schedule_key_deletion P (get_or (ev_aws_region event) ''us-east-1'')
                  (get_or (ev_key_arns event) []) (get_or (ev_deletion_schedule_days event) 30)
                  (get_or (ev_dry_run event) False) (after_identity P h))"
    and "ev_action event = Some ''cancel_deletion'' \<Longrightarrow>
           lambda_handler P event h
             = (Inr \<lparr>statusCode = 200, body = ''Action cancel_deletion completed''\<rparr>,
                cancel_key_deletion P (get_or (ev_aws_region event) ''us-east-1'')
                  (get_or (ev_key_arns event) []) (after_identity P h))"
    and "ev_action event = Some ''replicate_ireland'' \<Longrightarrow>
           lambda_handler P event h
             = (Inr \<lparr>statusCode = 200, body = ''Action replicate_ireland completed''\<rparr>,
                fold (replicate_ireland_arn P (get_or (ev_aws_region event) ''us-east-1'')
                        ''eu-west-1'' (get_or (ev_dry_run event) False))
                  (get_or (ev_key_arns event) []) (after_identity P h))"
  using assms
  by (auto simp: lambda_handler_def admitted_def after_identity_def completed_def
      str_action_def invoke_def and_then_def Let_def split: prod.splits sum.splits)

section \<open>Keys that are not found\<close>

text \<open>
  C1 as stated fails.  For a key that does not exist, so that its state resolves to
  \<open>NotFound\<close>, \<open>disable_keys\<close> with \<open>dry_run\<close> false does not resolve the state: it issues the
  mutating \<open>disable_key\<close> call and reports the provider's error as a failure; and
  \<open>cancel_key_deletion\<close> reports that there is nothing to cancel, not that the key was not
  found.  And \<open>schedule_key_deletion\<close> takes a state \<open>NotFound\<close> as any state other than
  \<open>PendingDeletion\<close>: it goes on to read the tags, and with a provider that answers that read
  with a \<open>DisabledOn\<close> tag it issues the mutating \<open>schedule_key_deletion\<close> call.
\<close>

theorem not_found_noop_counterexample:
  "fst (key_status (scripted no_such_key) ''us-east-1'' ''k1'' (start ())) = Inr ''NotFound''
   \<and> trace (snd (disable_key_arn (scripted no_such_key) ''us-east-1'' False ''k1'' (start ())))
     = [Call (DisableKey ''us-east-1'' ''k1''),
        Log ERROR ''Failed to disable key k1: key not found'']
   \<and> mutating (DisableKey ''us-east-1'' ''k1'')
   \<and> trace (cancel_key_deletion_arn (scripted no_such_key) ''us-east-1'' ''k1'' (start ()))
     = [Call (DescribeKey ''us-east-1'' ''k1''),
        Log INFO (''Key k1 is not scheduled for deletion '' @ em_dash @ '' nothing to cancel.'')]
   \<and> fst (key_status (scripted ghost_key) ''us-east-1'' ''k1'' (start ())) = Inr ''NotFound''
   \<and> trace (schedule_key_deletion_arn (scripted ghost_key) ''us-east-1'' 30 False ''k1''
        (start ()))
     = [Call (DescribeKey ''us-east-1'' ''k1''), Call (ListResourceTags ''us-east-1'' ''k1''),
        Call (ScheduleKeyDeletion ''us-east-1'' ''k1'' 30),
        Log INFO ''Key k1 scheduled for deletion in 30 days.'']
   \<and> mutating (ScheduleKeyDeletion ''us-east-1'' ''k1'' 30)"
  by (simp add: key_status_def disable_key_arn_def cancel_key_deletion_arn_def
      schedule_key_deletion_arn_def excluded_services_def run_defs script_defs ghost_key_def
      str_int_30)

text \<open>
  C1 as amended.  Take a key whose state resolves to \<open>NotFound\<close>, at any point \<open>s\<close> of a run.
  \<open>enable_keys\<close> and \<open>disable_keys\<close> with \<open>dry_run\<close> true add the \<open>describe_key\<close> call and the
  line that the key was not found, and nothing else; \<open>cancel_key_deletion\<close> adds the
  \<open>describe_key\<close> call and the line that there is nothing to cancel, and nothing else: these
  three issue no mutating call.  \<open>schedule_key_deletion\<close>, for both values of \<open>dry_run\<close>, adds
  the \<open>describe_key\<close> call and the read of the tags; when the provider raises an error on that
  read it adds no further call, and when the error is \<open>NotFoundException\<close> it reports the key
  as not found.
\<close>

theorem not_found_is_noop:
  assumes "key_status P kms arn s = (Inr ''NotFound'', s1)"
  shows "trace (enable_key_arn P kms arn s)
           = trace s @ [Call (DescribeKey kms arn), Log INFO (''Key '' @ arn @ '' not found'')]
       \<and> disable_key_arn P kms True arn s
           = (Inr (), logger INFO (''Key '' @ arn @ '' not found. (Dry Run)'') s1)
       \<and> trace (snd (disable_key_arn P kms True arn s))
           = trace s @ [Call (DescribeKey kms arn),
               Log INFO (''Key '' @ arn @ '' not found. (Dry Run)'')]
       \<and> trace (cancel_key_deletion_arn P kms arn s)
           = trace s @ [Call (DescribeKey kms arn),
               Log INFO (''Key '' @ arn @ '' is not scheduled for deletion '' @ em_dash
                         @ '' nothing to cancel.'')]
       \<and> (fst (respond P (world s1) (ListResourceTags kms arn)) = Inl e \<longrightarrow>
           calls_of (trace (schedule_key_deletion_arn P kms days dry_run arn s))
             = calls_of (trace s) @ [DescribeKey kms arn, ListResourceTags kms arn]
           \<and> (error_code e = ''NotFoundException'' \<longrightarrow>
               trace (schedule_key_deletion_arn P kms days dry_run arn s)
                 = trace s @ [Call (DescribeKey kms arn), Call (ListResourceTags kms arn),
                     Log INFO (''Key '' @ arn @ '' not found.'')]))"
proof -
  note s1 = key_status_run[OF assms]
  have "trace (enable_key_arn P kms arn s)
           = trace s @ [Call (DescribeKey kms arn), Log INFO (''Key '' @ arn @ '' not found'')]"
    using assms s1 by (simp add: enable_key_arn_def run_defs)
  moreover have "disable_key_arn P kms True arn s
           = (Inr (), logger INFO (''Key '' @ arn @ '' not found. (Dry Run)'') s1)"
    using assms by (simp add: disable_key_arn_def and_then_def done_ok_def)
  moreover have "trace (snd (disable_key_arn P kms True arn s))
           = trace s @ [Call (DescribeKey kms arn),
               Log INFO (''Key '' @ arn @ '' not found. (Dry Run)'')]"
    using assms s1 by (simp add: disable_key_arn_def run_defs)
  moreover have "trace (cancel_key_deletion_arn P kms arn s)
           = trace s @ [Call (DescribeKey kms arn),
               Log INFO (''Key '' @ arn @ '' is not scheduled for deletion '' @ em_dash
                         @ '' nothing to cancel.'')]"
    using assms s1 by (simp add: cancel_key_deletion_arn_def run_defs)
  moreover have "calls_of (trace (schedule_key_deletion_arn P kms days dry_run arn s))
             = calls_of (trace s) @ [DescribeKey kms arn, ListResourceTags kms arn]
           \<and> (error_code e = ''NotFoundException'' \<longrightarrow>
               trace (schedule_key_deletion_arn P kms days dry_run arn s)
                 = trace s @ [Call (DescribeKey kms arn), Call (ListResourceTags kms arn),
                     Log INFO (''Key '' @ arn @ '' not found.'')])"
    if "fst (respond P (world s1) (ListResourceTags kms arn)) = Inl e"
    using assms s1 that
    by (cases "respond P (world s1) (ListResourceTags kms arn)")
      (auto simp: schedule_key_deletion_arn_def run_defs)
  ultimately show ?thesis by blast
qed

theorem not_found_is_noop_witness:
  "key_status (scripted no_such_key) ''us-east-1'' ''k1''
     (after_identity (scripted no_such_key) (start ()))
     = (Inr ''NotFound'',
        \<lparr>world = (), trace = [Call GetCallerIdentity, Call (DescribeKey ''us-east-1'' ''k1'')]\<rparr>)
   \<and> fst (respond (scripted no_such_key) () (ListResourceTags ''us-east-1'' ''k1''))
     = Inl (ClientError ''NotFoundException'' ''key not found'')
   \<and> trace (enable_key_arn (scripted no_such_key) ''us-east-1'' ''k1''
        (after_identity (scripted no_such_key) (start ())))
     = [Call GetCallerIdentity, Call (DescribeKey ''us-east-1'' ''k1''),
        Log INFO ''Key k1 not found'']
   \<and> trace (schedule_key_deletion_arn (scripted no_such_key) ''us-east-1'' 30 False ''k1''
        (after_identity (scripted no_such_key) (start ())))
     = [Call GetCallerIdentity, Call (DescribeKey ''us-east-1'' ''k1''),
        Call (ListResourceTags ''us-east-1'' ''k1''), Log INFO ''Key k1 not found.'']"
proof -
  let ?h = "after_identity (scripted no_such_key) (start ())"
  have h: "key_status (scripted no_such_key) ''us-east-1'' ''k1'' ?h
     = (Inr ''NotFound'',
        \<lparr>world = (), trace = [Call GetCallerIdentity, Call (DescribeKey ''us-east-1'' ''k1'')]\<rparr>)"
    by (simp add: key_status_def after_identity_def run_defs script_defs)
  have t: "fst (respond (scripted no_such_key) () (ListResourceTags ''us-east-1'' ''k1''))
     = Inl (ClientError ''NotFoundException'' ''key not found'')"
    by (simp add: script_defs)
  have t0: "trace ?h = [Call GetCallerIdentity]"
    by (simp add: after_identity_def start_def)
  from not_found_is_noop[OF h, where e = "ClientError ''NotFoundException'' ''key not found''"
      and days = 30 and dry_run = False] h t t0
  show ?thesis by simp
qed

section \<open>Keys of excluded services\<close>




section \<open>Dry runs\<close>

lemma dry_disable_key_arn:
  assumes "\<And>c. read_only c \<Longrightarrow> Q c" and "reaches Q P s s1"
  shows "reaches Q P s (snd (disable_key_arn P kms True arn s1))"
  unfolding disable_key_arn_def using assms
  by (simp; intro reaches_intros; simp)

lemma dry_disable_keys:
  assumes "\<And>c. read_only c \<Longrightarrow> Q c"
  shows "reaches Q P s s1 \<Longrightarrow> reaches Q P s (snd (disable_keys P kms key_arns True s1))"
  by (induction key_arns arbitrary: s1)
    (auto intro!: reaches_and_then reaches_done_ok dry_disable_key_arn assms)

lemma dry_schedule_key_deletion_arn:
  assumes "\<And>c. read_only c \<Longrightarrow> Q c" and "reaches Q P s s1"
  shows "reaches Q P s (schedule_key_deletion_arn P kms days True arn s1)"
  unfolding schedule_key_deletion_arn_def Let_def using assms
  by (intro reaches_intros; simp)

lemma dry_replicate_key:
  assumes "\<And>c. read_only c \<Longrightarrow> Q c" and "reaches Q P s s1"
  shows "reaches Q P s (replicate_key P arn alias sec True s1)"
  unfolding replicate_key_def Let_def using assms
  by (simp; intro reaches_intros; simp)

lemma dry_replicate_ireland_arn:
  assumes "\<And>c. read_only c \<Longrightarrow> Q c" and "reaches Q P s s1"
  shows "reaches Q P s (replicate_ireland_arn P kms sec True arn s1)"
proof -
  have "reaches Q P s (snd (get_primary_alias P kms arn s1))"
    using assms by (intro reaches_get_primary_alias) simp_all
  then show ?thesis
    unfolding replicate_ireland_arn_def using assms(1)
    by (auto split: prod.splits intro!: dry_replicate_key reaches_logger)
qed

lemma dry_lambda_handler:
  assumes dry: "ev_dry_run event = Some True"
    and act: "ev_action event \<in> {Some ''disable'', Some ''schedule_deletion'',
                Some ''replicate_ireland''}"
  shows "reaches (\<lambda>c. c = GetCallerIdentity \<or> read_only c) P s
           (snd (lambda_handler P event s))"
proof -
  let ?Q = "\<lambda>c. c = GetCallerIdentity \<or> read_only c"
  have q: "\<And>c. read_only c \<Longrightarrow> ?Q c" by simp
  have 1: "\<And>s1 kms arns. reaches ?Q P s s1 \<Longrightarrow>
             reaches ?Q P s (snd (disable_keys P kms arns True s1))"
    by (rule dry_disable_keys[OF q])
  have 2: "\<And>s1 kms arns days. reaches ?Q P s s1 \<Longrightarrow>
             reaches ?Q P s (schedule_key_deletion P kms arns days True s1)"
    unfolding schedule_key_deletion_def
    by (rule reaches_fold) (auto intro: dry_schedule_key_deletion_arn[OF q])
  have 3: "\<And>s1 kms arns sec. reaches ?Q P s s1 \<Longrightarrow>
             reaches ?Q P s (fold (replicate_ireland_arn P kms sec True) arns s1)"
    by (rule reaches_fold) (auto intro: dry_replicate_ireland_arn[OF q])
  from act consider "ev_action event = Some ''disable''"
    | "ev_action event = Some ''schedule_deletion''"
    | "ev_action event = Some ''replicate_ireland''" by auto
  then show ?thesis
  proof cases
    case 1
    with dry show ?thesis
      unfolding lambda_handler_def Let_def completed_def get_or_def
      by (auto intro!: reaches_and_then reaches_invoke reaches_logger reaches_refl
            reaches_pair \<open>\<And>s1 kms arns. reaches ?Q P s s1 \<Longrightarrow>
             reaches ?Q P s (snd (disable_keys P kms arns True s1))\<close>)
  next
    case 2
    with dry show ?thesis
      unfolding lambda_handler_def Let_def completed_def get_or_def
      by (auto intro!: reaches_and_then reaches_invoke reaches_logger reaches_refl
            reaches_pair \<open>\<And>s1 kms arns days. reaches ?Q P s s1 \<Longrightarrow>
             reaches ?Q P s (schedule_key_deletion P kms arns days True s1)\<close>)
  next
    case 3
    with dry show ?thesis
      unfolding lambda_handler_def Let_def completed_def get_or_def
      by (auto intro!: reaches_and_then reaches_invoke reaches_logger reaches_refl
            reaches_pair \<open>\<And>s1 kms arns sec. reaches ?Q P s s1 \<Longrightarrow>
             reaches ?Q P s (fold (replicate_ireland_arn P kms sec True) arns s1)\<close>)
  qed
qed

text \<open>
  C3.  With \<open>dry_run\<close> true, \<open>disable_keys\<close>, \<open>schedule_key_deletion\<close> and replication (one
  \<open>replicate_key\<close>, and the whole loop of the \<open>replicate_ireland\<close> action with its alias
  lookups) issue only read-only calls: \<open>describe_key\<close>, \<open>list_resource_tags\<close>,
  \<open>get_key_policy\<close>, \<open>list_aliases\<close>.  So does a whole request for one of these actions, apart
  from the identity lookup it starts with.  When the provider's read-only calls change
  nothing, the world after each operation is the world before it.
\<close>

theorem dry_run_only_reads:
  "list_all read_only (calls_of (trace (snd (disable_keys P kms key_arns True (start w)))))
   \<and> list_all read_only
        (calls_of (trace (schedule_key_deletion P kms key_arns days True (start w))))
   \<and> list_all read_only (calls_of (trace (replicate_key P arn alias sec True (start w))))
   \<and> list_all read_only
        (calls_of (trace (fold (replicate_ireland_arn P kms sec True) key_arns (start w))))
   \<and> (ev_dry_run event = Some True
        \<and> ev_action event \<in> {Some ''disable'', Some ''schedule_deletion'',
             Some ''replicate_ireland''} \<longrightarrow>
      list_all (\<lambda>c. c = GetCallerIdentity \<or> read_only c)
        (calls_of (trace (snd (lambda_handler P event (start w))))))
   \<and> (keeps_world P \<longrightarrow>
        world (snd (disable_keys P kms key_arns True (start w))) = w
      \<and> world (schedule_key_deletion P kms key_arns days True (start w)) = w
      \<and> world (replicate_key P arn alias sec True (start w)) = w
      \<and> world (fold (replicate_ireland_arn P kms sec True) key_arns (start w)) = w)"
proof -
  have 1: "reaches read_only P (start w) (snd (disable_keys P kms key_arns True (start w)))"
    by (rule dry_disable_keys) (simp_all add: reaches_refl)
  have 2: "reaches read_only P (start w)
             (schedule_key_deletion P kms key_arns days True (start w))"
    unfolding schedule_key_deletion_def
    by (rule reaches_fold) (auto intro: dry_schedule_key_deletion_arn reaches_refl)
  have 3: "reaches read_only P (start w) (replicate_key P arn alias sec True (start w))"
    by (rule dry_replicate_key) (simp_all add: reaches_refl)
  have 4: "reaches read_only P (start w)
             (fold (replicate_ireland_arn P kms sec True) key_arns (start w))"
    by (rule reaches_fold) (auto intro: dry_replicate_ireland_arn reaches_refl)
  have 5: "ev_dry_run event = Some True
        \<and> ev_action event \<in> {Some ''disable'', Some ''schedule_deletion'',
             Some ''replicate_ireland''} \<longrightarrow>
      list_all (\<lambda>c. c = GetCallerIdentity \<or> read_only c)
        (calls_of (trace (snd (lambda_handler P event (start w)))))"
    using dry_lambda_handler[of event P "start w"] by (auto dest: reaches_start)
  from 1 2 3 4 5 show ?thesis
    by (auto dest: reaches_start reaches_start_world)
qed

lemma keeps_world_one_key_kms: "keeps_world one_key_kms"
  by (auto simp: keeps_world_def one_key_kms_def one_key_respond_def split: call.splits)

theorem dry_run_only_reads_witness:
  "keeps_world one_key_kms
   \<and> ev_dry_run (request ''schedule_deletion'' [''k1''] True) = Some True
   \<and> ev_action (request ''schedule_deletion'' [''k1''] True)
       \<in> {Some ''disable'', Some ''schedule_deletion'', Some ''replicate_ireland''}
   \<and> list_all read_only
        (calls_of (trace (snd (disable_keys one_key_kms ''us-east-1'' [''k1''] True
           (start tagged_key)))))
   \<and> list_all (\<lambda>c. c = GetCallerIdentity \<or> read_only c)
        (calls_of (trace (snd (lambda_handler one_key_kms
           (request ''schedule_deletion'' [''k1''] True) (start tagged_key)))))
   \<and> world (schedule_key_deletion one_key_kms ''us-east-1'' [''k1''] 30 True
        (start tagged_key)) = tagged_key"
  using dry_run_only_reads[of one_key_kms "''us-east-1''" "[''k1'']" tagged_key 30
      "''k1''" "''alias_ca-central-1_srk''" "''eu-west-1''"
      "request ''schedule_deletion'' [''k1''] True"]
    keeps_world_one_key_kms
  by (simp add: request_def)

section \<open>Scheduling a deletion\<close>

text \<open>
  C4.  Take any key of the list given to \<open>schedule_key_deletion\<close>, and let \<open>s\<close> be the run
  when the loop reaches it, with its state resolved to \<open>status\<close> and, unless that is
  \<open>PendingDeletion\<close>, its tags read.  The turn for the key issues the provider's
  \<open>schedule_key_deletion\<close> call, for that key and with the given number of days, exactly when
  the state is not \<open>PendingDeletion\<close>, the \<open>service_name\<close> tag is not in the exclusion list,
  the \<open>DisabledOn\<close> tag is present and \<open>dry_run\<close> is false; it comes after the two reads and
  is the only mutating call of the turn.  A key in \<open>PendingDeletion\<close> is reported as already
  scheduled before any tag is read; a key without the \<open>DisabledOn\<close> tag is skipped whatever
  its state (\<open>Enabled\<close>, \<open>Disabled\<close>, ...), and a key with the tag is scheduled whatever its
  state but \<open>PendingDeletion\<close>.  The loop runs this turn for the key and keeps what it added,
  and an admitted request for the \<open>schedule_deletion\<close> action runs this loop on the request's
  keys, with 30 days and no dry run unless the request says otherwise, and answers 200.
\<close>

theorem schedule_deletion_iff_eligible:
  assumes reached: "s = schedule_key_deletion P kms before days dry_run s0"
    and ks: "key_status P kms arn s = (Inr status, s1)"
    and tags: "status \<noteq> ''PendingDeletion'' \<longrightarrow>
               fst (respond P (world s1) (ListResourceTags kms arn)) = Inr resp"
  shows "calls_of (trace (schedule_key_deletion_arn P kms days dry_run arn s))
           = calls_of (trace s)
             @ (if status = ''PendingDeletion'' then [DescribeKey kms arn]
                else if \<not> service_excluded (Tags resp) \<and> has_tag ''DisabledOn'' (Tags resp)
                        \<and> \<not> dry_run
                then [DescribeKey kms arn, ListResourceTags kms arn,
                      ScheduleKeyDeletion kms arn days]
                else [DescribeKey kms arn, ListResourceTags kms arn])
       \<and> (status = ''PendingDeletion'' \<longrightarrow>
           trace (schedule_key_deletion_arn P kms days dry_run arn s) =
             trace s @ [Call (DescribeKey kms arn),
               Log INFO (''Key '' @ arn @ '' already scheduled for deletion.'')])
       \<and> (status \<noteq> ''PendingDeletion'' \<and> \<not> service_excluded (Tags resp)
             \<and> \<not> has_tag ''DisabledOn'' (Tags resp) \<longrightarrow>
           trace (schedule_key_deletion_arn P kms days dry_run arn s) =
             trace s @ [Call (DescribeKey kms arn), Call (ListResourceTags kms arn),
               Log INFO (''Key '' @ arn @ '' is not disabled '' @ em_dash
                         @ '' skipping deletion.'')])
       \<and> (status \<noteq> ''PendingDeletion'' \<and> \<not> service_excluded (Tags resp)
             \<and> has_tag ''DisabledOn'' (Tags resp) \<and> dry_run \<longrightarrow>
           trace (schedule_key_deletion_arn P kms days dry_run arn s) =
             trace s @ [Call (DescribeKey kms arn), Call (ListResourceTags kms arn),
               Log INFO (''Key '' @ arn @ '' would be scheduled for deletion in ''
                         @ str_int days @ '' days. (Dry Run)'')])
       \<and> schedule_key_deletion P kms (before @ arn # after) days dry_run s0
           = schedule_key_deletion P kms after days dry_run
               (schedule_key_deletion_arn P kms days dry_run arn s)
       \<and> (\<exists>rest. trace (schedule_key_deletion P kms (before @ arn # after) days dry_run s0)
                    = trace (schedule_key_deletion_arn P kms days dry_run arn s) @ rest)
       \<and> (admitted P event h \<and> ev_action event = Some ''schedule_deletion'' \<longrightarrow>
           lambda_handler P event h
             = (Inr \<lparr>statusCode = 200, body = ''Action schedule_deletion completed''\<rparr>,
                schedule_key_deletion P (get_or (ev_aws_region event) ''us-east-1'')
                  (get_or (ev_key_arns event) []) (get_or (ev_deletion_schedule_days event) 30)
                  (get_or (ev_dry_run event) False) (after_identity P h)))"
proof -
  note s1 = key_status_run[OF ks]
  have turn: "calls_of (trace (schedule_key_deletion_arn P kms days dry_run arn s))
           = calls_of (trace s)
             @ (if status = ''PendingDeletion'' then [DescribeKey kms arn]
                else if \<not> service_excluded (Tags resp) \<and> has_tag ''DisabledOn'' (Tags resp)
                        \<and> \<not> dry_run
                then [DescribeKey kms arn, ListResourceTags kms arn,
                      ScheduleKeyDeletion kms arn days]
                else [DescribeKey kms arn, ListResourceTags kms arn])
       \<and> (status = ''PendingDeletion'' \<longrightarrow>
           trace (schedule_key_deletion_arn P kms days dry_run arn s) =
             trace s @ [Call (DescribeKey kms arn),
               Log INFO (''Key '' @ arn @ '' already scheduled for deletion.'')])
       \<and> (status \<noteq> ''PendingDeletion'' \<and> \<not> service_excluded (Tags resp)
             \<and> \<not> has_tag ''DisabledOn'' (Tags resp) \<longrightarrow>
           trace (schedule_key_deletion_arn P kms days dry_run arn s) =
             trace s @ [Call (DescribeKey kms arn), Call (ListResourceTags kms arn),
               Log INFO (''Key '' @ arn @ '' is not disabled '' @ em_dash
                         @ '' skipping deletion.'')])
       \<and> (status \<noteq> ''PendingDeletion'' \<and> \<not> service_excluded (Tags resp)
             \<and> has_tag ''DisabledOn'' (Tags resp) \<and> dry_run \<longrightarrow>
           trace (schedule_key_deletion_arn P kms days dry_run arn s) =
             trace s @ [Call (DescribeKey kms arn), Call (ListResourceTags kms arn),
               Log INFO (''Key '' @ arn @ '' would be scheduled for deletion in ''
                         @ str_int days @ '' days. (Dry Run)'')])"
  proof (cases "status = ''PendingDeletion''")
    case True
    with ks s1 show ?thesis
      by (simp add: schedule_key_deletion_arn_def run_defs)
  next
    case False
    with tags obtain w2 where
      "respond P (snd (respond P (world s) (DescribeKey kms arn))) (ListResourceTags kms arn)
         = (Inr resp, w2)"
      using s1 by (cases "respond P (world s1) (ListResourceTags kms arn)") auto
    with False ks s1 show ?thesis
      unfolding schedule_key_deletion_arn_def Let_def find_has_tag service_excluded_find
      by (auto simp: run_defs split: prod.splits sum.splits)
  qed
  have loop: "schedule_key_deletion P kms (before @ arn # after) days dry_run s0
           = schedule_key_deletion P kms after days dry_run
               (schedule_key_deletion_arn P kms days dry_run arn s)"
    unfolding reached schedule_key_deletion_def by (rule fold_at_key)
  have kept: "\<exists>rest. trace (schedule_key_deletion P kms (before @ arn # after) days dry_run s0)
                    = trace (schedule_key_deletion_arn P kms days dry_run arn s) @ rest"
    unfolding loop unfolding schedule_key_deletion_def
    by (rule loop_extends) (rule any_schedule_key_deletion_arn)
  from turn loop kept lambda_handler_dispatch(2)[of P event h] show ?thesis
    by blast
qed

theorem schedule_deletion_iff_eligible_witness:
  "admitted one_key_kms (request ''schedule_deletion'' [''k1''] False) (start tagged_key)
   \<and> key_status one_key_kms ''us-east-1'' ''k1''
        (after_identity one_key_kms (start tagged_key))
     = (Inr ''Disabled'',
        \<lparr>world = tagged_key,
         trace = [Call GetCallerIdentity, Call (DescribeKey ''us-east-1'' ''k1'')]\<rparr>)
   \<and> fst (respond one_key_kms tagged_key (ListResourceTags ''us-east-1'' ''k1''))
     = Inr (plain\<lparr>Tags := [(''DisabledOn'', ''2024-04-01'')]\<rparr>)
   \<and> calls_of (trace (snd (lambda_handler one_key_kms
        (request ''schedule_deletion'' [''k1''] False) (start tagged_key))))
     = [GetCallerIdentity, DescribeKey ''us-east-1'' ''k1'',
        ListResourceTags ''us-east-1'' ''k1'', ScheduleKeyDeletion ''us-east-1'' ''k1'' 30]
   \<and> trace (snd (lambda_handler one_key_kms
        (request ''schedule_deletion'' [''k1''] False) (start pending_key)))
     = [Call GetCallerIdentity, Call (DescribeKey ''us-east-1'' ''k1''),
        Log INFO ''Key k1 already scheduled for deletion.'']"
proof -
  let ?ev = "request ''schedule_deletion'' [''k1''] False"
  let ?resp = "plain\<lparr>Tags := [(''DisabledOn'', ''2024-04-01'')]\<rparr>"
  have adm: "admitted one_key_kms ?ev (start w)" for w
    by (simp add: admitted_def request_def get_or_def one_key_kms_def one_key_respond_def
        plain_def blocked_accounts_def start_def)
  have act: "ev_action ?ev = Some ''schedule_deletion''"
    and keys: "get_or (ev_key_arns ?ev) [] = [''k1'']"
    and reg: "get_or (ev_aws_region ?ev) ''us-east-1'' = ''us-east-1''"
    and days: "get_or (ev_deletion_schedule_days ?ev) 30 = 30"
    and dry: "get_or (ev_dry_run ?ev) False = False"
    by (simp_all add: request_def get_or_def)
  have r0: "after_identity one_key_kms (start w)
      = schedule_key_deletion one_key_kms ''us-east-1'' [] 30 False
          (after_identity one_key_kms (start w))"
    for w by (simp add: schedule_key_deletion_def)
  have k1: "key_status one_key_kms ''us-east-1'' ''k1''
        (after_identity one_key_kms (start tagged_key))
     = (Inr ''Disabled'',
        \<lparr>world = tagged_key,
         trace = [Call GetCallerIdentity, Call (DescribeKey ''us-east-1'' ''k1'')]\<rparr>)"
    by (simp add: key_status_def after_identity_def run_defs one_key_kms_def
        one_key_respond_def tagged_key_def plain_def)
  have k2: "key_status one_key_kms ''us-east-1'' ''k1''
        (after_identity one_key_kms (start pending_key))
     = (Inr ''PendingDeletion'',
        \<lparr>world = pending_key,
         trace = [Call GetCallerIdentity, Call (DescribeKey ''us-east-1'' ''k1'')]\<rparr>)"
    by (simp add: key_status_def after_identity_def run_defs one_key_kms_def
        one_key_respond_def pending_key_def plain_def)
  have t1: "fst (respond one_key_kms tagged_key (ListResourceTags ''us-east-1'' ''k1''))
     = Inr ?resp"
    by (simp add: one_key_kms_def one_key_respond_def tagged_key_def)
  have t1': "''Disabled'' \<noteq> ''PendingDeletion'' \<longrightarrow>
      fst (respond one_key_kms
            (world \<lparr>world = tagged_key,
               trace = [Call GetCallerIdentity, Call (DescribeKey ''us-east-1'' ''k1'')]\<rparr>)
            (ListResourceTags ''us-east-1'' ''k1'')) = Inr ?resp"
    using t1 by simp
  have t2': "''PendingDeletion'' \<noteq> ''PendingDeletion'' \<longrightarrow>
      fst (respond one_key_kms
            (world \<lparr>world = pending_key,
               trace = [Call GetCallerIdentity, Call (DescribeKey ''us-east-1'' ''k1'')]\<rparr>)
            (ListResourceTags ''us-east-1'' ''k1'')) = Inr ?resp"
    by simp
  have t0: "trace (after_identity one_key_kms (start w)) = [Call GetCallerIdentity]" for w
    by (simp add: after_identity_def start_def)
  from schedule_deletion_iff_eligible[OF r0 k1 t1', where after = "[]" and event = ?ev
      and h = "start tagged_key"] adm act keys reg days dry t0
  have a: "calls_of (trace (snd (lambda_handler one_key_kms ?ev (start tagged_key))))
     = [GetCallerIdentity, DescribeKey ''us-east-1'' ''k1'',
        ListResourceTags ''us-east-1'' ''k1'', ScheduleKeyDeletion ''us-east-1'' ''k1'' 30]"
    by (simp add: schedule_key_deletion_def service_excluded_def has_tag_def plain_def)
  from schedule_deletion_iff_eligible[OF r0 k2 t2', where after = "[]" and event = ?ev
      and h = "start pending_key"] adm act keys reg days dry t0
  have b: "trace (snd (lambda_handler one_key_kms ?ev (start pending_key)))
     = [Call GetCallerIdentity, Call (DescribeKey ''us-east-1'' ''k1''),
        Log INFO ''Key k1 already scheduled for deletion.'']"
    by (simp add: schedule_key_deletion_def)
  from adm k1 t1 a b show ?thesis by simp
qed

section \<open>Cancelling a deletion\<close>

text \<open>
  C5.  Take any key of the list given to \<open>cancel_key_deletion\<close>, and let \<open>s\<close> be the run when
  the loop reaches it, with its state resolved to \<open>status\<close>.  The turn for the key adds to the
  calls made so far the \<open>describe_key\<close> that resolved the state and, exactly when \<open>status\<close> is
  \<open>PendingDeletion\<close> or \<open>PendingReplicaDeletion\<close>, the provider's \<open>cancel_key_deletion\<close> for
  that key, and nothing else.  In every other state (\<open>Enabled\<close>, \<open>Disabled\<close>, \<open>NotFound\<close>, ...)
  the turn adds only that \<open>describe_key\<close> and the line that there is nothing to cancel.  The
  loop runs this turn for the key and keeps what it added, and an admitted request for the
  \<open>cancel_deletion\<close> action runs this loop on the request's keys and answers 200.
\<close>

theorem cancel_deletion_iff_pending:
  assumes reached: "s = cancel_key_deletion P kms before s0"
    and ks: "key_status P kms arn s = (Inr status, s1)"
  shows "calls_of (trace (cancel_key_deletion_arn P kms arn s))
           = calls_of (trace s) @ DescribeKey kms arn
               # (if status = ''PendingDeletion'' \<or> status = ''PendingReplicaDeletion''
                  then [CancelKeyDeletion kms arn] else [])
       \<and> (status \<noteq> ''PendingDeletion'' \<and> status \<noteq> ''PendingReplicaDeletion'' \<longrightarrow>
           trace (cancel_key_deletion_arn P kms arn s) =
             trace s @ [Call (DescribeKey kms arn),
               Log INFO (''Key '' @ arn @ '' is not scheduled for deletion '' @ em_dash
                         @ '' nothing to cancel.'')])
       \<and> cancel_key_deletion P kms (before @ arn # after) s0
           = cancel_key_deletion P kms after (cancel_key_deletion_arn P kms arn s)
       \<and> (\<exists>rest. trace (cancel_key_deletion P kms (before @ arn # after) s0)
                    = trace (cancel_key_deletion_arn P kms arn s) @ rest)
       \<and> (admitted P event h \<and> ev_action event = Some ''cancel_deletion'' \<longrightarrow>
           lambda_handler P event h
             = (Inr \<lparr>statusCode = 200, body = ''Action cancel_deletion completed''\<rparr>,
                cancel_key_deletion P (get_or (ev_aws_region event) ''us-east-1'')
                  (get_or (ev_key_arns event) []) (after_identity P h)))"
proof -
  note s1 = key_status_run[OF ks]
  have turn: "calls_of (trace (cancel_key_deletion_arn P kms arn s))
           = calls_of (trace s) @ DescribeKey kms arn
               # (if status = ''PendingDeletion'' \<or> status = ''PendingReplicaDeletion''
                  then [CancelKeyDeletion kms arn] else [])"
    using ks s1
    by (auto simp: cancel_key_deletion_arn_def run_defs split: prod.splits sum.splits)
  have idle: "status \<noteq> ''PendingDeletion'' \<and> status \<noteq> ''PendingReplicaDeletion'' \<longrightarrow>
           trace (cancel_key_deletion_arn P kms arn s) =
             trace s @ [Call (DescribeKey kms arn),
               Log INFO (''Key '' @ arn @ '' is not scheduled for deletion '' @ em_dash
                         @ '' nothing to cancel.'')]"
    using ks s1
    by (auto simp: cancel_key_deletion_arn_def run_defs split: prod.splits sum.splits)
  have loop: "cancel_key_deletion P kms (before @ arn # after) s0
           = cancel_key_deletion P kms after (cancel_key_deletion_arn P kms arn s)"
    unfolding reached cancel_key_deletion_def by (rule fold_at_key)
  have kept: "\<exists>rest. trace (cancel_key_deletion P kms (before @ arn # after) s0)
                    = trace (cancel_key_deletion_arn P kms arn s) @ rest"
    unfolding loop unfolding cancel_key_deletion_def
    by (rule loop_extends) (rule any_cancel_key_deletion_arn)
  from turn idle loop kept lambda_handler_dispatch(3)[of P event h] show ?thesis
    by blast
qed

theorem cancel_deletion_iff_pending_witness:
  "admitted one_key_kms (request ''cancel_deletion'' [''k1''] False) (start pending_key)
   \<and> key_status one_key_kms ''us-east-1'' ''k1''
        (after_identity one_key_kms (start pending_key))
     = (Inr ''PendingDeletion'',
        \<lparr>world = pending_key,
         trace = [Call GetCallerIdentity, Call (DescribeKey ''us-east-1'' ''k1'')]\<rparr>)
   \<and> calls_of (trace (snd (lambda_handler one_key_kms
        (request ''cancel_deletion'' [''k1''] False) (start pending_key))))
     = [GetCallerIdentity, DescribeKey ''us-east-1'' ''k1'',
        CancelKeyDeletion ''us-east-1'' ''k1'']
   \<and> key_status one_key_kms ''us-east-1'' ''k1''
        (after_identity one_key_kms (start tagged_key))
     = (Inr ''Disabled'',
        \<lparr>world = tagged_key,
         trace = [Call GetCallerIdentity, Call (DescribeKey ''us-east-1'' ''k1'')]\<rparr>)
   \<and> trace (snd (lambda_handler one_key_kms
        (request ''cancel_deletion'' [''k1''] False) (start tagged_key)))
     = [Call GetCallerIdentity, Call (DescribeKey ''us-east-1'' ''k1''),
        Log INFO (''Key k1 is not scheduled for deletion '' @ em_dash @ '' nothing to cancel.'')]"
proof -
  let ?ev = "request ''cancel_deletion'' [''k1''] False"
  have adm: "admitted one_key_kms ?ev (start w)" for w
    by (simp add: admitted_def request_def get_or_def one_key_kms_def one_key_respond_def
        plain_def blocked_accounts_def start_def)
  have act: "ev_action ?ev = Some ''cancel_deletion''"
    and keys: "get_or (ev_key_arns ?ev) [] = [''k1'']"
    and reg: "get_or (ev_aws_region ?ev) ''us-east-1'' = ''us-east-1''"
    by (simp_all add: request_def get_or_def)
  have r0: "after_identity one_key_kms (start w)
      = cancel_key_deletion one_key_kms ''us-east-1'' [] (after_identity one_key_kms (start w))"
    for w by (simp add: cancel_key_deletion_def)
  have k1: "key_status one_key_kms ''us-east-1'' ''k1''
        (after_identity one_key_kms (start pending_key))
     = (Inr ''PendingDeletion'',
        \<lparr>world = pending_key,
         trace = [Call GetCallerIdentity, Call (DescribeKey ''us-east-1'' ''k1'')]\<rparr>)"
    by (simp add: key_status_def after_identity_def run_defs one_key_kms_def
        one_key_respond_def pending_key_def plain_def)
  have k2: "key_status one_key_kms ''us-east-1'' ''k1''
        (after_identity one_key_kms (start tagged_key))
     = (Inr ''Disabled'',
        \<lparr>world = tagged_key,
         trace = [Call GetCallerIdentity, Call (DescribeKey ''us-east-1'' ''k1'')]\<rparr>)"
    by (simp add: key_status_def after_identity_def run_defs one_key_kms_def
        one_key_respond_def tagged_key_def plain_def)
  have t0: "trace (after_identity one_key_kms (start w)) = [Call GetCallerIdentity]" for w
    by (simp add: after_identity_def start_def)
  from cancel_deletion_iff_pending[OF r0 k1, where after = "[]" and event = ?ev
      and h = "start pending_key"] adm act keys reg t0
  have a: "calls_of (trace (snd (lambda_handler one_key_kms ?ev (start pending_key))))
     = [GetCallerIdentity, DescribeKey ''us-east-1'' ''k1'',
        CancelKeyDeletion ''us-east-1'' ''k1'']"
    by (simp add: cancel_key_deletion_def)
  from cancel_deletion_iff_pending[OF r0 k2, where after = "[]" and event = ?ev
      and h = "start tagged_key"] adm act keys reg t0
  have b: "trace (snd (lambda_handler one_key_kms ?ev (start tagged_key)))
     = [Call GetCallerIdentity, Call (DescribeKey ''us-east-1'' ''k1''),
        Log INFO (''Key k1 is not scheduled for deletion '' @ em_dash @ '' nothing to cancel.'')]"
    by (simp add: cancel_key_deletion_def)
  from adm k1 k2 a b show ?thesis by simp
qed

section \<open>Enabling twice\<close>

lemma tag_ledgerD:
  assumes "tag_ledger P kms arn tagged"
  shows "respond P w (DescribeKey kms arn) = (r, w') \<Longrightarrow> tagged w' = tagged w"
    and "respond P w (EnableKey kms arn) = (r, w') \<Longrightarrow> tagged w' = tagged w"
    and "respond P w (ListResourceTags kms arn) = (r, w') \<Longrightarrow> tagged w' = tagged w"
    and "respond P w (ListResourceTags kms arn) = (Inr resp, w') \<Longrightarrow>
           has_tag ''DisabledOn'' (Tags resp) = tagged w"
    and "respond P w (UntagResource kms arn [''DisabledOn'']) = (Inr resp, w') \<Longrightarrow>
           \<not> tagged w'"
proof -
  from assms have l: "tagged (snd (respond P w (DescribeKey kms arn))) = tagged w"
    "tagged (snd (respond P w (EnableKey kms arn))) = tagged w"
    "tagged (snd (respond P w (ListResourceTags kms arn))) = tagged w"
    "\<And>resp. fst (respond P w (ListResourceTags kms arn)) = Inr resp \<Longrightarrow>
       has_tag ''DisabledOn'' (Tags resp) = tagged w"
    "\<And>resp. fst (respond P w (UntagResource kms arn [''DisabledOn''])) = Inr resp \<Longrightarrow>
       \<not> tagged (snd (respond P w (UntagResource kms arn [''DisabledOn''])))"
    unfolding tag_ledger_def by blast+
  show "respond P w (DescribeKey kms arn) = (r, w') \<Longrightarrow> tagged w' = tagged w"
    using l(1) by simp
  show "respond P w (EnableKey kms arn) = (r, w') \<Longrightarrow> tagged w' = tagged w"
    using l(2) by simp
  show "respond P w (ListResourceTags kms arn) = (r, w') \<Longrightarrow> tagged w' = tagged w"
    using l(3) by simp
  show "respond P w (ListResourceTags kms arn) = (Inr resp, w') \<Longrightarrow>
           has_tag ''DisabledOn'' (Tags resp) = tagged w"
    using l(4)[of resp] by simp
  show "respond P w (UntagResource kms arn [''DisabledOn'']) = (Inr resp, w') \<Longrightarrow>
           \<not> tagged w'"
    using l(5)[of resp] by simp
qed

lemma enable_key_arn_calls:
  assumes "key_status P kms arn s = (Inr status, sa)" and "status \<noteq> ''NotFound''"
    and "respond P (world sa) (EnableKey kms arn) = (Inr enabled, wb)"
    and "respond P wb (ListResourceTags kms arn) = (Inr resp, wc)"
  shows "calls_of (trace (enable_key_arn P kms arn s))
        = calls_of (trace s)
          @ [DescribeKey kms arn, EnableKey kms arn, ListResourceTags kms arn]
          @ (if has_tag ''DisabledOn'' (Tags resp)
             then [UntagResource kms arn [''DisabledOn'']] else [])"
  using assms key_status_run[OF assms(1)]
  by (auto simp: enable_key_arn_def run_defs has_tag_def split: prod.splits sum.splits)

text \<open>What a turn of \<open>enable_keys\<close> that ended with the line \<open>enabled\<close> has done.\<close>

lemma enable_key_arn_succeeded:
  assumes ledger: "tag_ledger P kms arn tagged"
    and ok: "last (trace (enable_key_arn P kms arn s)) = Log INFO (''Key '' @ arn @ '' enabled'')"
  shows "calls_of (trace (enable_key_arn P kms arn s))
        = calls_of (trace s)
          @ [DescribeKey kms arn, EnableKey kms arn, ListResourceTags kms arn]
          @ (if tagged (world s) then [UntagResource kms arn [''DisabledOn'']] else [])"
    and "\<not> tagged (world (enable_key_arn P kms arn s))"
proof -
  obtain r sa where ks: "key_status P kms arn s = (r, sa)"
    by (cases "key_status P kms arn s")
  note sa = key_status_run[OF ks]
  obtain r0 w0 where d: "respond P (world s) (DescribeKey kms arn) = (r0, w0)"
    by (cases "respond P (world s) (DescribeKey kms arn)")
  have wa: "world sa = w0" and ta: "tagged w0 = tagged (world s)"
    using sa d tag_ledgerD(1)[OF ledger d] by simp_all
  obtain re wb where e: "respond P w0 (EnableKey kms arn) = (re, wb)"
    by (cases "respond P w0 (EnableKey kms arn)")
  have tb: "tagged wb = tagged (world s)"
    using tag_ledgerD(2)[OF ledger e] ta by simp
  obtain rl wc where l: "respond P wb (ListResourceTags kms arn) = (rl, wc)"
    by (cases "respond P wb (ListResourceTags kms arn)")
  have tc: "tagged wc = tagged (world s)"
    using tag_ledgerD(3)[OF ledger l] tb by simp
  obtain ru wd where u: "respond P wc (UntagResource kms arn [''DisabledOn'']) = (ru, wd)"
    by (cases "respond P wc (UntagResource kms arn [''DisabledOn''])")
  have run: "(\<exists>status enabled resp. r = Inr status \<and> status \<noteq> ''NotFound''
          \<and> re = Inr enabled \<and> rl = Inr resp
          \<and> (has_tag ''DisabledOn'' (Tags resp) \<longrightarrow>
                (\<exists>x. ru = Inr x) \<and> world (enable_key_arn P kms arn s) = wd)
          \<and> (\<not> has_tag ''DisabledOn'' (Tags resp) \<longrightarrow>
                world (enable_key_arn P kms arn s) = wc))"
    using ok ks sa d e l u wa
    by (cases r; cases re; cases rl; cases ru)
      (auto simp: enable_key_arn_def run_defs has_tag_def split: if_splits)
  then obtain status enabled resp where
    st: "r = Inr status" "status \<noteq> ''NotFound''" "re = Inr enabled" "rl = Inr resp"
    and yes: "has_tag ''DisabledOn'' (Tags resp) \<Longrightarrow>
                (\<exists>x. ru = Inr x) \<and> world (enable_key_arn P kms arn s) = wd"
    and no: "\<not> has_tag ''DisabledOn'' (Tags resp) \<Longrightarrow>
                world (enable_key_arn P kms arn s) = wc"
    by blast
  have ht: "has_tag ''DisabledOn'' (Tags resp) = tagged (world s)"
    using tag_ledgerD(4)[OF ledger l[unfolded st]] tb by simp
  show "calls_of (trace (enable_key_arn P kms arn s))
        = calls_of (trace s)
          @ [DescribeKey kms arn, EnableKey kms arn, ListResourceTags kms arn]
          @ (if tagged (world s) then [UntagResource kms arn [''DisabledOn'']] else [])"
    using enable_key_arn_calls[OF ks[unfolded st] st(2) e[folded wa, unfolded st]
        l[unfolded st]] ht
    by simp
  show "\<not> tagged (world (enable_key_arn P kms arn s))"
  proof (cases "has_tag ''DisabledOn'' (Tags resp)")
    case True
    from yes[OF True] obtain x where "ru = Inr x"
      and w: "world (enable_key_arn P kms arn s) = wd" by blast
    with tag_ledgerD(5)[OF ledger, of wc x wd] u show ?thesis by simp
  next
    case False
    with no[OF False] tc ht show ?thesis by simp
  qed
qed

text \<open>A turn of \<open>enable_keys\<close> on a key without the tag mutates no tag and leaves it so.\<close>

lemma enable_key_arn_untagged:
  assumes ledger: "tag_ledger P kms arn tagged"
    and clean: "\<not> tagged (world s)"
  shows "\<exists>again. calls_of (trace (enable_key_arn P kms arn s)) = calls_of (trace s) @ again
          \<and> \<not> list_ex tag_mutation again"
proof -
  obtain r sa where ks: "key_status P kms arn s = (r, sa)"
    by (cases "key_status P kms arn s")
  note sa = key_status_run[OF ks]
  obtain r0 w0 where d: "respond P (world s) (DescribeKey kms arn) = (r0, w0)"
    by (cases "respond P (world s) (DescribeKey kms arn)")
  have wa: "world sa = w0" and ta: "\<not> tagged w0"
    using sa d tag_ledgerD(1)[OF ledger d] clean by simp_all
  obtain re wb where e: "respond P w0 (EnableKey kms arn) = (re, wb)"
    by (cases "respond P w0 (EnableKey kms arn)")
  have tb: "\<not> tagged wb"
    using tag_ledgerD(2)[OF ledger e] ta by simp
  obtain rl wc where l: "respond P wb (ListResourceTags kms arn) = (rl, wc)"
    by (cases "respond P wb (ListResourceTags kms arn)")
  have none: "rl = Inr resp \<Longrightarrow> \<not> list_ex (\<lambda>tag. fst tag = ''DisabledOn'') (Tags resp)"
    for resp
    using tag_ledgerD(4)[OF ledger, of wb resp wc] l tb by (simp add: has_tag_def)
  show ?thesis
    using ks sa d e l wa none
    by (cases r; cases re; cases rl)
      (auto simp: enable_key_arn_def run_defs split: if_splits)
qed

text \<open>
  C6.  A turn of \<open>enable_keys\<close> on a key that is found issues \<open>enable_key\<close> and then, having
  read the tags, issues \<open>untag_resource\<close> for \<open>DisabledOn\<close> exactly when the tags it read carry
  \<open>DisabledOn\<close>.  With a provider that keeps the tag as \<open>tag_ledger\<close> says, a turn that ended
  with the line that the key was enabled has removed the tag exactly when the key carried
  it, and leaves the key without it; a second turn for the same key right after it then
  issues no \<open>untag_resource\<close> (and no \<open>tag_resource\<close>), and when it succeeds too its calls are
  \<open>describe_key\<close>, \<open>enable_key\<close> and \<open>list_resource_tags\<close> only.  The loop \<open>enable_keys\<close>
  runs these turns one after the other, and an admitted request for the \<open>enable\<close> action
  runs this loop on the request's keys and answers 200.
\<close>

theorem enable_twice_untags_once:
  "(key_status P kms arn s = (Inr status, sa) \<and> status \<noteq> ''NotFound''
      \<and> respond P (world sa) (EnableKey kms arn) = (Inr enabled, wb)
      \<and> respond P wb (ListResourceTags kms arn) = (Inr resp, wc) \<longrightarrow>
      calls_of (trace (enable_key_arn P kms arn s))
        = calls_of (trace s)
          @ [DescribeKey kms arn, EnableKey kms arn, ListResourceTags kms arn]
          @ (if has_tag ''DisabledOn'' (Tags resp)
             then [UntagResource kms arn [''DisabledOn'']] else []))
   \<and> (tag_ledger P kms arn tagged
        \<and> last (trace (enable_key_arn P kms arn s)) = Log INFO (''Key '' @ arn @ '' enabled'')
       \<longrightarrow>
        calls_of (trace (enable_key_arn P kms arn s))
          = calls_of (trace s)
            @ [DescribeKey kms arn, EnableKey kms arn, ListResourceTags kms arn]
            @ (if tagged (world s) then [UntagResource kms arn [''DisabledOn'']] else [])
        \<and> \<not> tagged (world (enable_key_arn P kms arn s))
        \<and> (\<exists>again. calls_of (trace (enable_key_arn P kms arn (enable_key_arn P kms arn s)))
                       = calls_of (trace (enable_key_arn P kms arn s)) @ again
                    \<and> \<not> list_ex tag_mutation again)
        \<and> (last (trace (enable_key_arn P kms arn (enable_key_arn P kms arn s)))
              = Log INFO (''Key '' @ arn @ '' enabled'') \<longrightarrow>
            calls_of (trace (enable_key_arn P kms arn (enable_key_arn P kms arn s)))
              = calls_of (trace (enable_key_arn P kms arn s))
                @ [DescribeKey kms arn, EnableKey kms arn, ListResourceTags kms arn]))
   \<and> enable_keys P kms (before @ arn # arn # after) s0
       = enable_keys P kms after
           (enable_key_arn P kms arn (enable_key_arn P kms arn (enable_keys P kms before s0)))
   \<and> (\<exists>rest. trace (enable_keys P kms (before @ arn # after) s0)
                = trace (enable_key_arn P kms arn (enable_keys P kms before s0)) @ rest)
   \<and> (admitted P event h \<and> ev_action event = Some ''enable'' \<longrightarrow>
        lambda_handler P event h
          = (Inr \<lparr>statusCode = 200, body = ''Action enable completed''\<rparr>,
             enable_keys P (get_or (ev_aws_region event) ''us-east-1'')
               (get_or (ev_key_arns event) []) (after_identity P h)))"
proof -
  let ?once = "enable_key_arn P kms arn s"
  let ?twice = "enable_key_arn P kms arn ?once"
  have turn: "key_status P kms arn s = (Inr status, sa) \<and> status \<noteq> ''NotFound''
      \<and> respond P (world sa) (EnableKey kms arn) = (Inr enabled, wb)
      \<and> respond P wb (ListResourceTags kms arn) = (Inr resp, wc) \<longrightarrow>
      calls_of (trace ?once)
        = calls_of (trace s)
          @ [DescribeKey kms arn, EnableKey kms arn, ListResourceTags kms arn]
          @ (if has_tag ''DisabledOn'' (Tags resp)
             then [UntagResource kms arn [''DisabledOn'']] else [])"
    using enable_key_arn_calls[of P kms arn s status sa enabled wb resp wc] by blast
  have twice: "calls_of (trace ?once)
          = calls_of (trace s)
            @ [DescribeKey kms arn, EnableKey kms arn, ListResourceTags kms arn]
            @ (if tagged (world s) then [UntagResource kms arn [''DisabledOn'']] else [])
        \<and> \<not> tagged (world ?once)
        \<and> (\<exists>again. calls_of (trace ?twice) = calls_of (trace ?once) @ again
                    \<and> \<not> list_ex tag_mutation again)
        \<and> (last (trace ?twice) = Log INFO (''Key '' @ arn @ '' enabled'') \<longrightarrow>
            calls_of (trace ?twice)
              = calls_of (trace ?once)
                @ [DescribeKey kms arn, EnableKey kms arn, ListResourceTags kms arn])"
    if ledger: "tag_ledger P kms arn tagged"
      and ok: "last (trace ?once) = Log INFO (''Key '' @ arn @ '' enabled'')"
  proof -
    note first = enable_key_arn_succeeded[OF ledger ok]
    have "last (trace ?twice) = Log INFO (''Key '' @ arn @ '' enabled'') \<Longrightarrow>
            calls_of (trace ?twice)
              = calls_of (trace ?once)
                @ [DescribeKey kms arn, EnableKey kms arn, ListResourceTags kms arn]"
      using enable_key_arn_succeeded(1)[OF ledger, of ?once] first(2) by simp
    with first enable_key_arn_untagged[OF ledger first(2)] show ?thesis by blast
  qed
  have loop: "enable_keys P kms (before @ arn # arn # after) s0
       = enable_keys P kms after
           (enable_key_arn P kms arn (enable_key_arn P kms arn (enable_keys P kms before s0)))"
    by (simp add: enable_keys_def)
  have kept: "\<exists>rest. trace (enable_keys P kms (before @ arn # after) s0)
                = trace (enable_key_arn P kms arn (enable_keys P kms before s0)) @ rest"
    unfolding enable_keys_def fold_at_key
    by (rule loop_extends) (rule any_enable_key_arn)
  from turn twice loop kept lambda_handler_dispatch(1)[of P event h] show ?thesis
    by blast
qed

lemma tag_ledger_one_key_kms:
  "tag_ledger one_key_kms kms arn (\<lambda>w. has_tag ''DisabledOn'' (its_tags w))"
  by (auto simp: tag_ledger_def one_key_kms_def one_key_respond_def has_tag_def list_ex_iff)

theorem enable_twice_untags_once_witness:
  "tag_ledger one_key_kms ''us-east-1'' ''k1'' (\<lambda>w. has_tag ''DisabledOn'' (its_tags w))
   \<and> admitted one_key_kms (request ''enable'' [''k1'', ''k1''] False) (start tagged_key)
   \<and> has_tag ''DisabledOn'' (its_tags (world (after_identity one_key_kms (start tagged_key))))
   \<and> last (trace (enable_key_arn one_key_kms ''us-east-1'' ''k1''
        (after_identity one_key_kms (start tagged_key))))
     = Log INFO (''Key '' @ ''k1'' @ '' enabled'')
   \<and> calls_of (trace (snd (lambda_handler one_key_kms
        (request ''enable'' [''k1'', ''k1''] False) (start tagged_key))))
     = [GetCallerIdentity,
        DescribeKey ''us-east-1'' ''k1'', EnableKey ''us-east-1'' ''k1'',
        ListResourceTags ''us-east-1'' ''k1'', UntagResource ''us-east-1'' ''k1'' [''DisabledOn''],
        DescribeKey ''us-east-1'' ''k1'', EnableKey ''us-east-1'' ''k1'',
        ListResourceTags ''us-east-1'' ''k1'']"
proof -
  let ?ev = "request ''enable'' [''k1'', ''k1''] False"
  let ?h = "after_identity one_key_kms (start tagged_key)"
  let ?once = "enable_key_arn one_key_kms ''us-east-1'' ''k1'' ?h"
  let ?twice = "enable_key_arn one_key_kms ''us-east-1'' ''k1'' ?once"
  note eval = enable_key_arn_def key_status_def after_identity_def run_defs one_key_kms_def
    one_key_respond_def tagged_key_def plain_def
  have adm: "admitted one_key_kms ?ev (start tagged_key)"
    by (simp add: admitted_def request_def get_or_def one_key_kms_def one_key_respond_def
        plain_def blocked_accounts_def start_def)
  have act: "ev_action ?ev = Some ''enable''"
    and keys: "get_or (ev_key_arns ?ev) [] = [] @ ''k1'' # ''k1'' # []"
    and reg: "get_or (ev_aws_region ?ev) ''us-east-1'' = ''us-east-1''"
    by (simp_all add: request_def get_or_def)
  have tg: "has_tag ''DisabledOn'' (its_tags (world ?h))"
    by (simp add: after_identity_def start_def one_key_kms_def one_key_respond_def
        tagged_key_def has_tag_def)
  have t0: "calls_of (trace ?h) = [GetCallerIdentity]"
    by (simp add: after_identity_def start_def)
  have ok1: "last (trace ?once) = Log INFO (''Key '' @ ''k1'' @ '' enabled'')"
    by (simp add: eval)
  have ok2: "last (trace ?twice) = Log INFO (''Key '' @ ''k1'' @ '' enabled'')"
    by (simp add: eval)
  from enable_twice_untags_once[where P = one_key_kms and kms = "''us-east-1''"
      and arn = "''k1''" and s = ?h and tagged = "\<lambda>w. has_tag ''DisabledOn'' (its_tags w)"
      and before = "[]" and after = "[]" and ?s0.0 = ?h and event = ?ev
      and h = "start tagged_key"]
    tag_ledger_one_key_kms[of "''us-east-1''" "''k1''"] adm act ok1 ok2 tg t0
  have "calls_of (trace ?twice)
     = [GetCallerIdentity,
        DescribeKey ''us-east-1'' ''k1'', EnableKey ''us-east-1'' ''k1'',
        ListResourceTags ''us-east-1'' ''k1'', UntagResource ''us-east-1'' ''k1'' [''DisabledOn''],
        DescribeKey ''us-east-1'' ''k1'', EnableKey ''us-east-1'' ''k1'',
        ListResourceTags ''us-east-1'' ''k1'']"
    and "lambda_handler one_key_kms ?ev (start tagged_key)
          = (Inr \<lparr>statusCode = 200, body = ''Action enable completed''\<rparr>,
             enable_keys one_key_kms ''us-east-1'' [''k1'', ''k1''] ?h)"
    and "enable_keys one_key_kms ''us-east-1'' [''k1'', ''k1''] ?h = ?twice"
    unfolding keys reg by (simp_all add: enable_keys_def)
  with tag_ledger_one_key_kms[of "''us-east-1''" "''k1''"] adm tg ok1 show ?thesis
    by simp
qed

section \<open>The status of the response\<close>

text \<open>Outside a dry run \<open>disable_keys\<close> catches every error of its calls.\<close>

lemma disable_keys_catches: "fst (disable_keys P kms key_arns False s) = Inr ()"
  by (induction key_arns arbitrary: s)
    (simp_all add: disable_key_arn_def done_ok_def and_then_def)

text \<open>
  What the handler answers once the identity lookup has answered: 403 for a blocked account
  and 400 for an empty key list or an unknown action, in each case with no call beyond the
  identity lookup; 200 for every known action on a non-empty key list, with one exception,
  the \<open>disable\<close> action in a dry run.
\<close>

lemma lambda_handler_outcomes:
  assumes "respond P (world h) GetCallerIdentity = (Inr identity, w1)"
  shows "Account identity \<in> set blocked_accounts \<Longrightarrow>
           lambda_handler P event h
             = (Inr \<lparr>statusCode = 403, body = ''Execution not allowed in this account''\<rparr>,
                \<lparr>world = w1,
                 trace = trace h @ [Call GetCallerIdentity,
                   Log WARNING (''Execution blocked in account '' @ Account identity)]\<rparr>)"
    and "Account identity \<notin> set blocked_accounts \<Longrightarrow> get_or (ev_key_arns event) [] = [] \<Longrightarrow>
           lambda_handler P event h
             = (Inr \<lparr>statusCode = 400, body = ''No key ARNs specified''\<rparr>,
                \<lparr>world = w1,
                 trace = trace h @ [Call GetCallerIdentity, Log ERROR ''No key ARNs provided.'']\<rparr>)"
    and "Account identity \<notin> set blocked_accounts \<Longrightarrow> get_or (ev_key_arns event) [] \<noteq> [] \<Longrightarrow>
         ev_action event \<notin> Some ` set [''disable'', ''enable'', ''schedule_deletion'',
           ''cancel_deletion'', ''tag_srk_migration'', ''remove_tag_srk_migration'',
           ''replicate_ireland''] \<Longrightarrow>
           lambda_handler P event h
             = (Inr \<lparr>statusCode = 400,
                     body = ''Unsupported action: '' @ str_action (ev_action event)\<rparr>,
                \<lparr>world = w1,
                 trace = trace h @ [Call GetCallerIdentity,
                   Log ERROR (''Unsupported action: '' @ str_action (ev_action event))]\<rparr>)"
    and "Account identity \<notin> set blocked_accounts \<Longrightarrow> get_or (ev_key_arns event) [] \<noteq> [] \<Longrightarrow>
         ev_action event \<in> Some ` set [''disable'', ''enable'', ''schedule_deletion'',
           ''cancel_deletion'', ''tag_srk_migration'', ''remove_tag_srk_migration'',
           ''replicate_ireland''] \<Longrightarrow>
         \<not> (ev_action event = Some ''disable'' \<and> get_or (ev_dry_run event) False) \<Longrightarrow>
           fst (lambda_handler P event h)
             = Inr \<lparr>statusCode = 200,
                    body = ''Action '' @ str_action (ev_action event) @ '' completed''\<rparr>"
proof -
  show "Account identity \<in> set blocked_accounts \<Longrightarrow>
           lambda_handler P event h
             = (Inr \<lparr>statusCode = 403, body = ''Execution not allowed in this account''\<rparr>,
                \<lparr>world = w1,
                 trace = trace h @ [Call GetCallerIdentity,
                   Log WARNING (''Execution blocked in account '' @ Account identity)]\<rparr>)"
    using assms by (simp add: lambda_handler_def Let_def run_defs)
  show "Account identity \<notin> set blocked_accounts \<Longrightarrow> get_or (ev_key_arns event) [] = [] \<Longrightarrow>
           lambda_handler P event h
             = (Inr \<lparr>statusCode = 400, body = ''No key ARNs specified''\<rparr>,
                \<lparr>world = w1,
                 trace = trace h @ [Call GetCallerIdentity, Log ERROR ''No key ARNs provided.'']\<rparr>)"
    using assms by (simp add: lambda_handler_def Let_def run_defs)
  show "Account identity \<notin> set blocked_accounts \<Longrightarrow> get_or (ev_key_arns event) [] \<noteq> [] \<Longrightarrow>
         ev_action event \<notin> Some ` set [''disable'', ''enable'', ''schedule_deletion'',
           ''cancel_deletion'', ''tag_srk_migration'', ''remove_tag_srk_migration'',
           ''replicate_ireland''] \<Longrightarrow>
           lambda_handler P event h
             = (Inr \<lparr>statusCode = 400,
                     body = ''Unsupported action: '' @ str_action (ev_action event)\<rparr>,
                \<lparr>world = w1,
                 trace = trace h @ [Call GetCallerIdentity,
                   Log ERROR (''Unsupported action: '' @ str_action (ev_action event))]\<rparr>)"
    using assms by (simp add: lambda_handler_def Let_def run_defs)
  show "Account identity \<notin> set blocked_accounts \<Longrightarrow> get_or (ev_key_arns event) [] \<noteq> [] \<Longrightarrow>
         ev_action event \<in> Some ` set [''disable'', ''enable'', ''schedule_deletion'',
           ''cancel_deletion'', ''tag_srk_migration'', ''remove_tag_srk_migration'',
           ''replicate_ireland''] \<Longrightarrow>
         \<not> (ev_action event = Some ''disable'' \<and> get_or (ev_dry_run event) False) \<Longrightarrow>
           fst (lambda_handler P event h)
             = Inr \<lparr>statusCode = 200,
                    body = ''Action '' @ str_action (ev_action event) @ '' completed''\<rparr>"
    using assms
      disable_keys_catches[of P "get_or (ev_aws_region event) ''us-east-1''"
        "get_or (ev_key_arns event) []"
        "\<lparr>world = w1, trace = trace h @ [Call GetCallerIdentity]\<rparr>"]
    by (cases "disable_keys P (get_or (ev_aws_region event) ''us-east-1'')
                 (get_or (ev_key_arns event) []) False
                 \<lparr>world = w1, trace = trace h @ [Call GetCallerIdentity]\<rparr>")
      (auto simp: lambda_handler_def Let_def completed_def str_action_def invoke_def
        and_then_def)
qed

text \<open>
  C7 fails on the code.  The \<open>disable\<close> action in a dry run resolves the state of each key
  outside any \<open>try\<close>: when \<open>describe_key\<close> raises an error other than \<open>NotFoundException\<close>,
  \<open>key_status\<close> raises it again, nothing catches it, and the handler ends without any
  response, where the claim promises 200.  The same request without the dry run, on the same
  provider, catches the error of \<open>disable_key\<close> and answers 200.
\<close>

theorem dry_run_disable_error_escapes:
  "admitted (scripted access_denied) (request ''disable'' [''k1''] True) (start ())
   \<and> lambda_handler (scripted access_denied) (request ''disable'' [''k1''] True) (start ())
     = (Inl (ClientError ''AccessDeniedException'' ''not authorized''),
        \<lparr>world = (),
         trace = [Call GetCallerIdentity, Call (DescribeKey ''us-east-1'' ''k1'')]\<rparr>)
   \<and> lambda_handler (scripted access_denied) (request ''disable'' [''k1''] False) (start ())
     = (Inr \<lparr>statusCode = 200, body = ''Action disable completed''\<rparr>,
        \<lparr>world = (),
         trace = [Call GetCallerIdentity, Call (DisableKey ''us-east-1'' ''k1''),
                  Log ERROR ''Failed to disable key k1: not authorized'']\<rparr>)"
  by (simp add: admitted_def lambda_handler_def request_def get_or_def blocked_accounts_def
      disable_key_arn_def key_status_def completed_def str_action_def Let_def run_defs
      script_defs)

section \<open>The alias of a replica\<close>

lemma starts_with_append:
  "length p \<le> length s \<Longrightarrow> starts_with (s @ t) p = starts_with s p"
  by (simp add: starts_with_def)

lemma replace_absent:
  "old \<noteq> [] \<Longrightarrow> \<not> contains s old \<Longrightarrow> replace s old new = s"
  by (induction s) auto

lemma replace_at_first:
  assumes "old \<noteq> []" and "\<not> contains (pre @ butlast old) old"
  shows "replace (pre @ old @ post) old new = pre @ new @ replace post old new"
  using assms(2)
proof (induction pre)
  case Nil
  from assms(1) obtain c cs where old: "old = c # cs" by (cases old) auto
  then show ?case by (simp add: starts_with_def)
next
  case (Cons x pre)
  from Cons.prems have no: "\<not> starts_with ((x # pre) @ butlast old) old"
    and rest: "\<not> contains (pre @ butlast old) old" by auto
  have "butlast old @ [last old] = old"
    using assms(1) by simp
  then have eq: "(x # pre) @ old @ post = ((x # pre) @ butlast old) @ ([last old] @ post)"
    by (metis append.assoc)
  have "starts_with ((x # pre) @ old @ post) old = starts_with ((x # pre) @ butlast old) old"
    unfolding eq by (rule starts_with_append) simp
  with no have "\<not> starts_with ((x # pre) @ old @ post) old"
    by simp
  with assms(1) Cons.IH[OF rest] show ?case by simp
qed

text \<open>
  C8.  The alias of the replica is the primary alias with the text \<open>_ca-central-1\<close> replaced
  by \<open>_\<close> and the secondary region: \<open>alias_ca-central-1_srk\<close> and \<open>eu-west-1\<close> give
  \<open>alias_eu-west-1_srk\<close>, and in general the first occurrence of the token is replaced and
  the rest of the alias is treated the same way.  A primary alias that does not contain the
  token is returned as it is: the derivation has no error case, and the replica gets the
  name of the primary alias.
\<close>

theorem secondary_alias_is_substitution:
  "secondary_alias_of ''alias_ca-central-1_srk'' ''eu-west-1'' = ''alias_eu-west-1_srk''
   \<and> (\<not> contains (before @ ''_ca-central-'') ''_ca-central-1'' \<longrightarrow>
        secondary_alias_of (before @ ''_ca-central-1'' @ after) secondary_region
          = before @ ''_'' @ secondary_region @ secondary_alias_of after secondary_region)
   \<and> (\<not> contains primary_alias ''_ca-central-1'' \<longrightarrow>
        secondary_alias_of primary_alias secondary_region = primary_alias)"
proof -
  have "secondary_alias_of ''alias_ca-central-1_srk'' ''eu-west-1'' = ''alias_eu-west-1_srk''"
    by (simp add: secondary_alias_of_def starts_with_def)
  moreover have "secondary_alias_of (before @ ''_ca-central-1'' @ after) secondary_region
          = before @ ''_'' @ secondary_region @ secondary_alias_of after secondary_region"
    if "\<not> contains (before @ ''_ca-central-'') ''_ca-central-1''"
    using replace_at_first[of "''_ca-central-1''" before after "''_'' @ secondary_region"] that
    by (simp add: secondary_alias_of_def)
  moreover have "secondary_alias_of primary_alias secondary_region = primary_alias"
    if "\<not> contains primary_alias ''_ca-central-1''"
    using replace_absent[of "''_ca-central-1''" primary_alias] that
    by (simp add: secondary_alias_of_def)
  ultimately show ?thesis by blast
qed

theorem secondary_alias_is_substitution_witness:
  "\<not> contains (''alias'' @ ''_ca-central-'') ''_ca-central-1''
   \<and> secondary_alias_of (''alias'' @ ''_ca-central-1'' @ ''_srk'') ''eu-west-1''
       = ''alias'' @ ''_'' @ ''eu-west-1'' @ secondary_alias_of ''_srk'' ''eu-west-1''
   \<and> \<not> contains ''alias/srk-primary'' ''_ca-central-1''
   \<and> secondary_alias_of ''alias/srk-primary'' ''eu-west-1'' = ''alias/srk-primary''"
proof -
  have a: "\<not> contains (''alias'' @ ''_ca-central-'') ''_ca-central-1''"
    by (simp add: starts_with_def)
  have b: "\<not> contains ''alias/srk-primary'' ''_ca-central-1''"
    by (simp add: starts_with_def)
  from secondary_alias_is_substitution[of "''alias''" "''_srk''" "''eu-west-1''"
      "''alias/srk-primary''"] a b
  show ?thesis by (simp add: starts_with_def secondary_alias_of_def)
qed

section \<open>The primary alias\<close>








section \<open>The regions of a replication\<close>

lemma replicate_key_calls:
  assumes "reaches (replicate_key_call arn alias sec) P s s1"
  shows "reaches (replicate_key_call arn alias sec) P s (replicate_key P arn alias sec dry_run s1)"
  unfolding replicate_key_def Let_def using assms
  by (intro reaches_intros; simp add: secondary_alias_of_def)

lemma replicate_key_after_policy:
  "reaches (replicate_key_call arn alias sec) P
     (snd (invoke P (GetKeyPolicy ''ca-central-1'' arn ''default'') s))
     (replicate_key P arn alias sec dry_run s)"
  unfolding replicate_key_def Let_def
  by (rule reaches_except, rule reaches_and_then, rule reaches_refl)
    (intro reaches_intros; simp add: secondary_alias_of_def)+

lemma replicate_ireland_key_calls:
  assumes "reaches (replication_call req) P s s1"
  shows "reaches (replication_call req) P s
           (replicate_key P arn alias ''eu-west-1'' dry_run s1)"
  unfolding replicate_key_def Let_def using assms
  by (intro reaches_intros; simp)

lemma replicate_ireland_arn_calls:
  assumes "reaches (replication_call req) P s s1"
  shows "reaches (replication_call req) P s
           (replicate_ireland_arn P req ''eu-west-1'' dry_run arn s1)"
proof -
  have "reaches (replication_call req) P s (snd (get_primary_alias P req arn s1))"
    using assms by (intro reaches_get_primary_alias) simp_all
  then show ?thesis
    unfolding replicate_ireland_arn_def
    by (auto split: prod.splits intro!: replicate_ireland_key_calls reaches_logger)
qed

text \<open>
  C10 as stated fails.  The alias a replication starts from is read by \<open>list_aliases\<close> on the
  client of the request's region, and what that read answers decides whether the key is
  replicated at all.  For a key that lives in \<open>ca-central-1\<close>, a request without a region
  reads the aliases in \<open>us-east-1\<close>, finds none and replicates nothing; the same request with
  region \<open>ca-central-1\<close> reads them there and replicates the key.
\<close>

theorem request_region_reads_counterexample:
  "calls_of (trace (snd (lambda_handler (scripted ca_central_key)
      (request ''replicate_ireland'' [''k1''] False) (start ()))))
     = [GetCallerIdentity, ListAliases ''us-east-1'' ''k1'']
   \<and> calls_of (trace (snd (lambda_handler (scripted ca_central_key)
      ((request ''replicate_ireland'' [''k1''] False)\<lparr>ev_aws_region := Some ''ca-central-1''\<rparr>)
      (start ()))))
     = [GetCallerIdentity,
        ListAliases ''ca-central-1'' ''k1'',
        GetKeyPolicy ''ca-central-1'' ''k1'' ''default'',
        ListResourceTags ''ca-central-1'' ''k1'',
        ReplicateKey ''ca-central-1'' ''k1'' ''eu-west-1'' ''Replica key'',
        PutKeyPolicy ''eu-west-1'' ''replica-1'' ''default'' ''{}'',
        CreateAlias ''eu-west-1'' ''alias_eu-west-1_srk'' ''replica-1'']"
  by (simp add: lambda_handler_def request_def get_or_def blocked_accounts_def
      replicate_ireland_arn_def get_primary_alias_def replicate_key_def
      secondary_alias_of_def starts_with_def completed_def Let_def run_defs
      scripted_def plain_def ca_central_key_def)

text \<open>
  C10 as amended.  An admitted request for the \<open>replicate_ireland\<close> action runs, for each key
  in turn, the alias lookup on the client of the request's region and then, when an alias
  was found, \<open>replicate_key\<close> with secondary region \<open>eu-west-1\<close>.  Whatever the request's
  region, \<open>replicate_key\<close> starts with \<open>get_key_policy\<close> on \<open>ca-central-1\<close>, reads the tags on
  \<open>ca-central-1\<close> and, unless it is a dry run, calls \<open>replicate_key\<close> on \<open>ca-central-1\<close> and
  writes policy, alias and tags of the replica on the secondary region, the alias being the
  primary alias with \<open>_ca-central-1\<close> replaced; when a call fails the later ones are left
  out.  So the request's region selects the client of the alias lookup and nothing else.
\<close>

theorem replication_reads_and_writes:
  "(admitted P event h \<and> ev_action event = Some ''replicate_ireland'' \<longrightarrow>
      lambda_handler P event h
        = (Inr \<lparr>statusCode = 200, body = ''Action replicate_ireland completed''\<rparr>,
           fold (replicate_ireland_arn P (get_or (ev_aws_region event) ''us-east-1'')
                   ''eu-west-1'' (get_or (ev_dry_run event) False))
             (get_or (ev_key_arns event) []) (after_identity P h)))
   \<and> (get_primary_alias P req arn s = (found, s1) \<longrightarrow>
        calls_of (trace s1) = calls_of (trace s) @ [ListAliases req arn]
        \<and> replicate_ireland_arn P req sec dry_run arn s
            = (if found \<noteq> None \<and> the found \<noteq> []
               then replicate_key P arn (the found) sec dry_run s1
               else logger WARNING (''No alias found for '' @ arn
                      @ '', skipping replication.'') s1))
   \<and> (respond P (world s) (GetKeyPolicy ''ca-central-1'' arn ''default'') = (Inr policy, w1)
        \<and> respond P w1 (ListResourceTags ''ca-central-1'' arn) = (Inr tags, w2) \<longrightarrow>
        (dry_run \<longrightarrow>
           calls_of (trace (replicate_key P arn primary_alias sec dry_run s))
             = calls_of (trace s)
               @ [GetKeyPolicy ''ca-central-1'' arn ''default'',
                  ListResourceTags ''ca-central-1'' arn])
        \<and> (\<not> dry_run
             \<and> respond P w2 (ReplicateKey ''ca-central-1'' arn sec ''Replica key'')
                 = (Inr replica, w3)
             \<and> respond P w3 (PutKeyPolicy sec (ReplicaArn replica) ''default'' (Policy policy))
                 = (Inr put, w4)
             \<and> respond P w4 (CreateAlias sec (replace primary_alias ''_ca-central-1'' (''_'' @ sec))
                   (ReplicaArn replica))
                 = (Inr created, w5) \<longrightarrow>
           calls_of (trace (replicate_key P arn primary_alias sec dry_run s))
             = calls_of (trace s)
               @ [GetKeyPolicy ''ca-central-1'' arn ''default'',
                  ListResourceTags ''ca-central-1'' arn,
                  ReplicateKey ''ca-central-1'' arn sec ''Replica key'',
                  PutKeyPolicy sec (ReplicaArn replica) ''default'' (Policy policy),
                  CreateAlias sec (replace primary_alias ''_ca-central-1'' (''_'' @ sec))
                    (ReplicaArn replica)]
               @ (if Tags tags \<noteq> []
                  then [TagResource sec (ReplicaArn replica) (Tags tags)] else [])))
   \<and> (\<exists>later. calls_of (trace (replicate_key P arn primary_alias sec dry_run s))
                  = calls_of (trace s) @ GetKeyPolicy ''ca-central-1'' arn ''default'' # later
               \<and> list_all (replicate_key_call arn primary_alias sec) later)
   \<and> (ev_action event = Some ''replicate_ireland'' \<longrightarrow>
        list_all (replication_call (get_or (ev_aws_region event) ''us-east-1''))
          (calls_of (trace (snd (lambda_handler P event (start w))))))"
proof -
  let ?req = "get_or (ev_aws_region event) ''us-east-1''"
  have turn: "calls_of (trace s1) = calls_of (trace s) @ [ListAliases req arn]
        \<and> replicate_ireland_arn P req sec dry_run arn s
            = (if found \<noteq> None \<and> the found \<noteq> []
               then replicate_key P arn (the found) sec dry_run s1
               else logger WARNING (''No alias found for '' @ arn
                      @ '', skipping replication.'') s1)"
    if "get_primary_alias P req arn s = (found, s1)"
    using that
    by (auto simp: replicate_ireland_arn_def get_primary_alias_def run_defs
        split: prod.splits sum.splits)
  have dry: "calls_of (trace (replicate_key P arn primary_alias sec dry_run s))
             = calls_of (trace s)
               @ [GetKeyPolicy ''ca-central-1'' arn ''default'',
                  ListResourceTags ''ca-central-1'' arn]"
    if "respond P (world s) (GetKeyPolicy ''ca-central-1'' arn ''default'') = (Inr policy, w1)"
      "respond P w1 (ListResourceTags ''ca-central-1'' arn) = (Inr tags, w2)" dry_run
    using that by (simp add: replicate_key_def Let_def run_defs)
  have wet: "calls_of (trace (replicate_key P arn primary_alias sec dry_run s))
             = calls_of (trace s)
               @ [GetKeyPolicy ''ca-central-1'' arn ''default'',
                  ListResourceTags ''ca-central-1'' arn,
                  ReplicateKey ''ca-central-1'' arn sec ''Replica key'',
                  PutKeyPolicy sec (ReplicaArn replica) ''default'' (Policy policy),
                  CreateAlias sec (replace primary_alias ''_ca-central-1'' (''_'' @ sec))
                    (ReplicaArn replica)]
               @ (if Tags tags \<noteq> []
                  then [TagResource sec (ReplicaArn replica) (Tags tags)] else [])"
    if "respond P (world s) (GetKeyPolicy ''ca-central-1'' arn ''default'') = (Inr policy, w1)"
      "respond P w1 (ListResourceTags ''ca-central-1'' arn) = (Inr tags, w2)" "\<not> dry_run"
      "respond P w2 (ReplicateKey ''ca-central-1'' arn sec ''Replica key'') = (Inr replica, w3)"
      "respond P w3 (PutKeyPolicy sec (ReplicaArn replica) ''default'' (Policy policy))
         = (Inr put, w4)"
      "respond P w4 (CreateAlias sec (replace primary_alias ''_ca-central-1'' (''_'' @ sec))
           (ReplicaArn replica)) = (Inr created, w5)"
    using that
    by (auto simp: replicate_key_def secondary_alias_of_def Let_def run_defs
        split: prod.splits sum.splits)
  have starts: "\<exists>later. calls_of (trace (replicate_key P arn primary_alias sec dry_run s))
                  = calls_of (trace s) @ GetKeyPolicy ''ca-central-1'' arn ''default'' # later
               \<and> list_all (replicate_key_call arn primary_alias sec) later"
    using replicate_key_after_policy[of arn primary_alias sec P s dry_run]
    by (auto simp: reaches_def invoke_def split: prod.splits)
  have loop: "\<And>s1 arns dry. reaches (replication_call ?req) P (start w) s1 \<Longrightarrow>
      reaches (replication_call ?req) P (start w)
        (fold (replicate_ireland_arn P ?req ''eu-west-1'' dry) arns s1)"
    by (rule reaches_fold) (auto intro: replicate_ireland_arn_calls)
  have "ev_action event = Some ''replicate_ireland'' \<Longrightarrow>
      reaches (replication_call ?req) P (start w) (snd (lambda_handler P event (start w)))"
    unfolding lambda_handler_def Let_def completed_def
    by (auto intro!: reaches_and_then reaches_invoke reaches_logger reaches_refl
          reaches_pair loop)
  then have whole: "ev_action event = Some ''replicate_ireland'' \<longrightarrow>
        list_all (replication_call ?req)
          (calls_of (trace (snd (lambda_handler P event (start w)))))"
    by (auto dest: reaches_start)
  from turn dry wet starts whole lambda_handler_dispatch(4)[of P event h] show ?thesis
    by blast
qed

theorem replication_reads_and_writes_witness:
  "admitted (scripted (disabled_key ''ec2'')) (request ''replicate_ireland'' [''k1''] False)
     (start ())
   \<and> ev_action (request ''replicate_ireland'' [''k1''] False) = Some ''replicate_ireland''
   \<and> get_primary_alias (scripted (disabled_key ''ec2'')) ''us-east-1'' ''k1''
        (after_identity (scripted (disabled_key ''ec2'')) (start ()))
     = (Some ''alias_ca-central-1_srk'',
        \<lparr>world = (), trace = [Call GetCallerIdentity, Call (ListAliases ''us-east-1'' ''k1'')]\<rparr>)
   \<and> calls_of (trace (snd (lambda_handler (scripted (disabled_key ''ec2''))
           (request ''replicate_ireland'' [''k1''] False) (start ()))))
     = [GetCallerIdentity,
        ListAliases ''us-east-1'' ''k1'',
        GetKeyPolicy ''ca-central-1'' ''k1'' ''default'',
        ListResourceTags ''ca-central-1'' ''k1'',
        ReplicateKey ''ca-central-1'' ''k1'' ''eu-west-1'' ''Replica key'',
        PutKeyPolicy ''eu-west-1'' ''replica-1'' ''default'' ''{}'',
        CreateAlias ''eu-west-1'' ''alias_eu-west-1_srk'' ''replica-1'',
        TagResource ''eu-west-1'' ''replica-1''
          [(''service_name'', ''ec2''), (''DisabledOn'', ''2024-04-01'')]]"
proof -
  let ?P = "scripted (disabled_key ''ec2'')"
  let ?ev = "request ''replicate_ireland'' [''k1''] False"
  let ?s1 = "\<lparr>world = (),
              trace = [Call GetCallerIdentity, Call (ListAliases ''us-east-1'' ''k1'')]\<rparr>"
  let ?tags = "plain\<lparr>Tags := [(''service_name'', ''ec2''), (''DisabledOn'', ''2024-04-01'')]\<rparr>"
  have adm: "admitted ?P ?ev (start ())"
    by (simp add: admitted_def request_def get_or_def script_defs blocked_accounts_def
        start_def)
  have act: "ev_action ?ev = Some ''replicate_ireland''"
    and keys: "get_or (ev_key_arns ?ev) [] = [''k1'']"
    and reg: "get_or (ev_aws_region ?ev) ''us-east-1'' = ''us-east-1''"
    and dry: "get_or (ev_dry_run ?ev) False = False"
    by (simp_all add: request_def get_or_def)
  have found: "get_primary_alias ?P ''us-east-1'' ''k1'' (after_identity ?P (start ()))
      = (Some ''alias_ca-central-1_srk'', ?s1)"
    by (simp add: get_primary_alias_def after_identity_def run_defs script_defs)
  have r: "respond ?P (world ?s1) (GetKeyPolicy ''ca-central-1'' ''k1'' ''default'')
             = (Inr plain, ())"
      "respond ?P () (ListResourceTags ''ca-central-1'' ''k1'') = (Inr ?tags, ())"
      "respond ?P () (ReplicateKey ''ca-central-1'' ''k1'' ''eu-west-1'' ''Replica key'')
             = (Inr plain, ())"
      "respond ?P () (PutKeyPolicy ''eu-west-1'' (ReplicaArn plain) ''default'' (Policy plain))
             = (Inr plain, ())"
      "respond ?P () (CreateAlias ''eu-west-1''
           (replace ''alias_ca-central-1_srk'' ''_ca-central-1'' (''_'' @ ''eu-west-1''))
           (ReplicaArn plain)) = (Inr plain, ())"
    by (simp_all add: scripted_def disabled_key_def)
  have derived: "replace ''alias_ca-central-1_srk'' ''_ca-central-1'' (''_'' @ ''eu-west-1'')
      = ''alias_eu-west-1_srk''"
    by (simp add: starts_with_def)
  from replication_reads_and_writes[where P = ?P and event = ?ev and h = "start ()"
      and req = "''us-east-1''" and arn = "''k1''" and s = "after_identity ?P (start ())"
      and found = "Some ''alias_ca-central-1_srk''" and ?s1.0 = ?s1
      and sec = "''eu-west-1''" and dry_run = False]
  have disp: "lambda_handler ?P ?ev (start ())
        = (Inr \<lparr>statusCode = 200, body = ''Action replicate_ireland completed''\<rparr>,
           fold (replicate_ireland_arn ?P ''us-east-1'' ''eu-west-1'' False) [''k1'']
             (after_identity ?P (start ())))"
    and turn: "replicate_ireland_arn ?P ''us-east-1'' ''eu-west-1'' False ''k1''
        (after_identity ?P (start ()))
        = replicate_key ?P ''k1'' ''alias_ca-central-1_srk'' ''eu-west-1'' False ?s1"
    using adm act keys reg dry found by simp_all
  from replication_reads_and_writes[where P = ?P and arn = "''k1''" and s = ?s1
      and policy = plain and ?w1.0 = "()" and tags = ?tags and ?w2.0 = "()"
      and dry_run = False and sec = "''eu-west-1''" and replica = plain and ?w3.0 = "()"
      and put = plain and ?w4.0 = "()" and primary_alias = "''alias_ca-central-1_srk''"
      and created = plain and ?w5.0 = "()"] r derived
  have calls: "calls_of (trace (replicate_key ?P ''k1'' ''alias_ca-central-1_srk''
        ''eu-west-1'' False ?s1))
     = [GetCallerIdentity,
        ListAliases ''us-east-1'' ''k1'',
        GetKeyPolicy ''ca-central-1'' ''k1'' ''default'',
        ListResourceTags ''ca-central-1'' ''k1'',
        ReplicateKey ''ca-central-1'' ''k1'' ''eu-west-1'' ''Replica key'',
        PutKeyPolicy ''eu-west-1'' ''replica-1'' ''default'' ''{}'',
        CreateAlias ''eu-west-1'' ''alias_eu-west-1_srk'' ''replica-1'',
        TagResource ''eu-west-1'' ''replica-1''
          [(''service_name'', ''ec2''), (''DisabledOn'', ''2024-04-01'')]]"
    by (simp add: plain_def)
  from adm act found disp turn calls show ?thesis by simp
qed

end
